theory Spec2Isabelle
  imports Complex_Main "HOL-Library.Log_Nat" "HOL-Library.Word"
begin

section \<open>JavaScript numbers\<close>

text \<open>
  Every number of the program is an IEEE 754 double. A \<open>jsnum\<close> is \<open>NaN\<close>, an
  infinity, or a finite value \<open>Fin q\<close> carrying its exact rational value. The two zeros
  are one value \<open>Fin 0\<close>: the program never divides by a computed zero and never prints
  or compares a zero by sign, so the sign of zero cannot be observed.

  \<open>toDouble q\<close> is the double nearest to the rational \<open>q\<close>, ties to the even
  significand: the rounding that each arithmetic operation and each decimal literal of the
  source goes through. A positive \<open>q\<close> with \<open>2 ^ k \<le> q < 2 ^ (k + 1)\<close> is rounded
  to a multiple of \<open>2 ^ (k - 52)\<close> (53 significant bits), never finer than
  \<open>2 ^ - 1074\<close> (the subnormal spacing); a rounded magnitude of \<open>2 ^ 1024\<close> or more
  overflows to an infinity.

  \<open>Fin q\<close> is a double exactly when \<open>toDouble q = Fin q\<close>. The type holds more
  values than that; a theorem over all of \<open>jsnum\<close> holds for the doubles among them.
\<close>

datatype jsnum = NaN | NegInf | Fin rat | PosInf

definition pow2 :: "int \<Rightarrow> rat" where
  "pow2 e = (if 0 \<le> e then 2 ^ nat e else 1 / 2 ^ nat (- e))"

definition roundHalfEven :: "rat \<Rightarrow> int" where
  "roundHalfEven x =
     (let f = \<lfloor>x\<rfloor>; r = x - of_int f
      in if r < 1 / 2 then f
         else if 1 / 2 < r then f + 1
         else if even f then f else f + 1)"

text \<open>The binary exponent of a positive rational: \<open>2 ^ ilog2 q \<le> q < 2 ^ (ilog2 q + 1)\<close>.\<close>

definition ilog2 :: "rat \<Rightarrow> int" where
  "ilog2 q = (case quotient_of q of (a, b) \<Rightarrow>
     let e0 = bitlen a - bitlen b in if pow2 e0 \<le> q then e0 else e0 - 1)"

definition expo :: "rat \<Rightarrow> int" where
  "expo q = max (ilog2 q - 52) (- 1074)"

definition grid :: "int \<Rightarrow> rat \<Rightarrow> rat" where
  "grid e x = of_int (roundHalfEven (x / pow2 e)) * pow2 e"

definition roundMagnitude :: "rat \<Rightarrow> rat" where
  "roundMagnitude q = grid (expo q) q"

definition toDouble :: "rat \<Rightarrow> jsnum" where
  "toDouble q =
     (if q = 0 then Fin 0
      else let r = roundMagnitude \<bar>q\<bar>
           in if pow2 1024 \<le> r then (if 0 < q then PosInf else NegInf)
              else Fin (if 0 < q then r else - r))"

text \<open>The operators \<open>+\<close>, \<open>*\<close> and \<open>/\<close> on numbers.\<close>

fun js_add :: "jsnum \<Rightarrow> jsnum \<Rightarrow> jsnum" where
  "js_add (Fin a) (Fin b) = toDouble (a + b)"
| "js_add NaN _ = NaN"
| "js_add _ NaN = NaN"
| "js_add PosInf NegInf = NaN"
| "js_add NegInf PosInf = NaN"
| "js_add PosInf _ = PosInf"
| "js_add _ PosInf = PosInf"
| "js_add NegInf _ = NegInf"
| "js_add _ NegInf = NegInf"

definition signedInf :: "bool \<Rightarrow> jsnum" where
  "signedInf positive = (if positive then PosInf else NegInf)"

fun js_mul :: "jsnum \<Rightarrow> jsnum \<Rightarrow> jsnum" where
  "js_mul (Fin a) (Fin b) = toDouble (a * b)"
| "js_mul NaN _ = NaN"
| "js_mul _ NaN = NaN"
| "js_mul (Fin a) PosInf = (if a = 0 then NaN else signedInf (0 < a))"
| "js_mul (Fin a) NegInf = (if a = 0 then NaN else signedInf (a < 0))"
| "js_mul PosInf (Fin b) = (if b = 0 then NaN else signedInf (0 < b))"
| "js_mul NegInf (Fin b) = (if b = 0 then NaN else signedInf (b < 0))"
| "js_mul PosInf PosInf = PosInf"
| "js_mul PosInf NegInf = NegInf"
| "js_mul NegInf PosInf = NegInf"
| "js_mul NegInf NegInf = PosInf"

text \<open>
  Division, with a zero divisor read as \<open>+0\<close>: the only divisors of the source are an
  array length and the literal 255.
\<close>

fun js_div :: "jsnum \<Rightarrow> jsnum \<Rightarrow> jsnum" where
  "js_div (Fin a) (Fin b) =
     (if b = 0 then (if a = 0 then NaN else signedInf (0 < a)) else toDouble (a / b))"
| "js_div NaN _ = NaN"
| "js_div _ NaN = NaN"
| "js_div (Fin a) PosInf = Fin 0"
| "js_div (Fin a) NegInf = Fin 0"
| "js_div PosInf (Fin b) = signedInf (0 \<le> b)"
| "js_div NegInf (Fin b) = signedInf (b < 0)"
| "js_div PosInf PosInf = NaN"
| "js_div PosInf NegInf = NaN"
| "js_div NegInf PosInf = NaN"
| "js_div NegInf NegInf = NaN"

text \<open>The comparisons \<open><\<close>, \<open>>\<close> and \<open><=\<close>: false whenever an operand is \<open>NaN\<close>.\<close>

fun js_lt :: "jsnum \<Rightarrow> jsnum \<Rightarrow> bool" where
  "js_lt (Fin a) (Fin b) = (a < b)"
| "js_lt NegInf (Fin b) = True"
| "js_lt NegInf PosInf = True"
| "js_lt (Fin a) PosInf = True"
| "js_lt _ _ = False"

definition js_gt :: "jsnum \<Rightarrow> jsnum \<Rightarrow> bool" where
  "js_gt a b = js_lt b a"

fun js_le :: "jsnum \<Rightarrow> jsnum \<Rightarrow> bool" where
  "js_le NaN _ = False"
| "js_le _ NaN = False"
| "js_le a b = (\<not> js_lt b a)"

text \<open>\<open>Math.min\<close>, \<open>Math.max\<close> (of two arguments) and \<open>Math.round\<close>.\<close>

definition Math_min :: "jsnum \<Rightarrow> jsnum \<Rightarrow> jsnum" where
  "Math_min a b = (if a = NaN \<or> b = NaN then NaN else if js_lt b a then b else a)"

definition Math_max :: "jsnum \<Rightarrow> jsnum \<Rightarrow> jsnum" where
  "Math_max a b = (if a = NaN \<or> b = NaN then NaN else if js_lt a b then b else a)"

fun Math_round :: "jsnum \<Rightarrow> jsnum" where
  "Math_round (Fin q) = Fin (of_int \<lfloor>q + 1 / 2\<rfloor>)"
| "Math_round x = x"

text \<open>
  \<open>parseInt(s, 10)\<close>: leading white space, an optional sign, then the longest run of
  decimal digits; \<open>NaN\<close> when there is no digit.
\<close>

definition isWhiteSpace :: "char \<Rightarrow> bool" where
  "isWhiteSpace c = (c \<in> set [CHR '' '', CHR 0x09, CHR 0x0A, CHR 0x0B, CHR 0x0C, CHR 0x0D])"

definition isDigit :: "char \<Rightarrow> bool" where
  "isDigit c = (48 \<le> (of_char c :: nat) \<and> (of_char c :: nat) \<le> 57)"

definition digitsValue :: "string \<Rightarrow> nat" where
  "digitsValue ds = foldl (\<lambda>n c. 10 * n + (of_char c - 48)) 0 ds"

definition parseInt :: "string \<Rightarrow> jsnum" where
  "parseInt s =
     (let s1 = dropWhile isWhiteSpace s;
          negative = (s1 \<noteq> [] \<and> hd s1 = CHR ''-'');
          s2 = (if s1 \<noteq> [] \<and> (hd s1 = CHR ''-'' \<or> hd s1 = CHR ''+'') then tl s1 else s1);
          ds = takeWhile isDigit s2
      in if ds = [] then NaN
         else toDouble (if negative then - of_nat (digitsValue ds) else of_nat (digitsValue ds)))"

section \<open>The platform: WebSocket, timers, microphone\<close>

text \<open>
  The program is a set of callbacks run one at a time by the browser's event loop. What
  the browser holds for it is part of the state: the socket's \<open>readyState\<close> and the
  messages handed to \<open>send\<close>, the pending timers, the pending \<open>getUserMedia\<close>
  promises and the pending animation-frame callbacks.
\<close>

datatype js_error = InvalidStateError | SyntaxError | TypeError

datatype ready_state = CONNECTING | OPEN | CLOSING | CLOSED

text \<open>The request id \<open>'vol_' + Date.now()\<close>.\<close>

datatype request_id = vol nat

text \<open>
  Outgoing messages \<open>{op, d}\<close>: \<open>d\<close> is \<open>{rpcVersion}\<close> or
  \<open>{rpcVersion, authentication}\<close> in an identify message, and
  \<open>{requestType, requestId, requestData: {inputName}}\<close> in a request.
\<close>

datatype out_data =
    identify_d (rpcVersion: int) (authentication: "string option")
  | request_d string request_id string

record out_msg =
  out_op :: int
  out_d :: out_data

text \<open>
  Incoming messages after \<open>JSON.parse\<close>. An absent property is \<open>None\<close>;
  \<open>inputVolumeMul\<close> is the number that \<open>*\<close> coerces the property to.
\<close>

record response_data =
  inputVolumeMul :: "jsnum option"

record in_data =
  requestType :: string
  responseData :: "response_data option"

record in_msg =
  msg_op :: int
  msg_d :: "in_data option"

text \<open>
  \<open>event.data\<close> of a message event: text that \<open>JSON.parse\<close> rejects (or that parses
  to \<open>null\<close>, whose property read throws), or a message object.
\<close>

datatype ws_data = Malformed js_error | Json in_msg

definition JSON_parse :: "ws_data \<Rightarrow> js_error + in_msg" where
  "JSON_parse data = (case data of Malformed e \<Rightarrow> Inl e | Json m \<Rightarrow> Inr m)"

record websocket =
  url :: string
  readyState :: ready_state
  sent :: "out_msg list"

text \<open>
  \<open>WebSocket.send\<close> throws while the socket is connecting, transmits while it is open,
  and discards the data once it is closing or closed. \<open>WebSocket.close\<close> starts the
  closing of a connecting or open socket and does nothing otherwise.
\<close>

definition ws_send :: "websocket \<Rightarrow> out_msg \<Rightarrow> js_error + websocket" where
  "ws_send ws data =
     (if readyState ws = CONNECTING then Inl InvalidStateError
      else if readyState ws = OPEN then Inr (ws\<lparr>sent := sent ws @ [data]\<rparr>)
      else Inr ws)"

definition ws_close :: "websocket \<Rightarrow> websocket" where
  "ws_close ws =
     (if readyState ws = CONNECTING \<or> readyState ws = OPEN then ws\<lparr>readyState := CLOSING\<rparr>
      else ws)"

section \<open>The class PNGTuber (js/app.js)\<close>

text \<open>
  The fields of the class that the audio pipeline reads or writes, under their own names;
  \<open>volumeBar\<close> tells whether the element exists, \<open>volumeBarWidth\<close> is the width
  (in percent) last written to it, if any; \<open>avatarTalking\<close> is the presence of the class
  \<open>talking\<close> on the avatar container. The colour controls are left out.

  \<open>deadlineTimer\<close>, \<open>pollTimers\<close>, \<open>micRequests\<close> and \<open>frameCallbacks\<close> are
  what the event loop holds: the pending 3000 ms timeout, the pending
  \<open>setTimeout(pollAudio, 16)\<close> callbacks, the unsettled \<open>getUserMedia\<close> promises and
  the pending \<open>requestAnimationFrame(processAudio)\<close> callbacks.

  \<open>mouthUpdates\<close>, \<open>initAudioCalls\<close> and \<open>webSocketsCreated\<close> record history
  and are read by no callback: the value of \<open>isTalking\<close> at each call of
  \<open>updateMouthState\<close>, the number of calls of \<open>initAudio\<close>, and the number of
  sockets constructed.
\<close>

record pngtuber =
  threshold :: jsnum
  isTalking :: bool
  smoothedVolume :: jsnum
  obsWebSocket :: "websocket option"
  obsConnected :: bool
  obsAudioSource :: string
  obsPort :: string
  obsPassword :: string
  volumeBar :: bool
  volumeBarWidth :: "jsnum option"
  avatarTalking :: bool
  micPromptHidden :: bool
  micDeniedShown :: bool
  deadlineTimer :: bool
  pollTimers :: nat
  micRequests :: nat
  frameCallbacks :: nat
  mouthUpdates :: "bool list"
  initAudioCalls :: nat
  webSocketsCreated :: nat

definition updateMouthState :: "pngtuber \<Rightarrow> pngtuber" where
  "updateMouthState st =
     st\<lparr>avatarTalking := isTalking st, mouthUpdates := mouthUpdates st @ [isTalking st]\<rparr>"

definition processVolume :: "pngtuber \<Rightarrow> jsnum \<Rightarrow> pngtuber" where
  "processVolume st volume =
     (let sv = js_add (js_mul (smoothedVolume st) (toDouble (7 / 10)))
                      (js_mul volume (toDouble (3 / 10)));
          st0 = st\<lparr>smoothedVolume := sv\<rparr>;
          st1 = (if volumeBar st0 then st0\<lparr>volumeBarWidth := Some (smoothedVolume st0)\<rparr>
                 else st0);
          shouldTalk = js_gt (smoothedVolume st1) (threshold st1)
      in if shouldTalk \<noteq> isTalking st1
         then updateMouthState (st1\<lparr>isTalking := shouldTalk\<rparr>)
         else st1)"

definition obsSend :: "pngtuber \<Rightarrow> out_msg \<Rightarrow> js_error + pngtuber" where
  "obsSend st data =
     (case obsWebSocket st of
        None \<Rightarrow> Inr st
      | Some ws \<Rightarrow>
          if readyState ws = OPEN
          then (case ws_send ws data of
                  Inl e \<Rightarrow> Inl e
                | Inr ws' \<Rightarrow> Inr (st\<lparr>obsWebSocket := Some ws'\<rparr>))
          else Inr st)"

definition obsAuthenticate :: "pngtuber \<Rightarrow> js_error + pngtuber" where
  "obsAuthenticate st =
     obsSend st \<lparr>out_op = 1, out_d = identify_d 1 (Some (obsPassword st))\<rparr>"

definition handleOBSVolumeResponse :: "pngtuber \<Rightarrow> response_data option \<Rightarrow> pngtuber" where
  "handleOBSVolumeResponse st data =
     (case data of
        None \<Rightarrow> st
      | Some rd \<Rightarrow>
          (case inputVolumeMul rd of
             None \<Rightarrow> st
           | Some m \<Rightarrow>
               processVolume st (Math_min (Fin 100) (Math_max (Fin 0) (js_mul m (Fin 100))))))"

text \<open>
  \<open>pollAudio\<close>, the closure of \<open>startOBSAudioLoop\<close>; \<open>now\<close> is \<open>Date.now()\<close>.
  \<open>startOBSAudioLoop\<close> calls it once at once.
\<close>

definition pollAudio :: "nat \<Rightarrow> pngtuber \<Rightarrow> js_error + pngtuber" where
  "pollAudio now st =
     (if \<not> obsConnected st then Inr st
      else (case obsSend st \<lparr>out_op = 6,
                   out_d = request_d ''GetInputVolume'' (vol now) (obsAudioSource st)\<rparr> of
              Inl e \<Rightarrow> Inl e
            | Inr st' \<Rightarrow> Inr (st'\<lparr>pollTimers := pollTimers st' + 1\<rparr>)))"

definition startOBSAudioLoop :: "nat \<Rightarrow> pngtuber \<Rightarrow> js_error + pngtuber" where
  "startOBSAudioLoop now st = pollAudio now st"

definition handleOBSMessage :: "nat \<Rightarrow> pngtuber \<Rightarrow> in_msg \<Rightarrow> js_error + pngtuber" where
  "handleOBSMessage now st message =
     (if msg_op message = 0 then obsSend st \<lparr>out_op = 1, out_d = identify_d 1 None\<rparr>
      else if msg_op message = 2 then startOBSAudioLoop now st
      else if msg_op message = 7 then
        (case msg_d message of
           None \<Rightarrow> Inr st
         | Some d \<Rightarrow>
             if requestType d = ''GetInputVolume''
             then Inr (handleOBSVolumeResponse st (responseData d))
             else Inr st)
      else Inr st)"

text \<open>
  \<open>initAudio\<close> up to its \<open>await\<close>: the microphone is requested. The rest of the
  function runs when the promise settles: \<open>initAudio_granted\<close> is the remainder of the
  \<open>try\<close> block, \<open>initAudio_denied\<close> the \<open>catch\<close> block.
\<close>

definition initAudio :: "pngtuber \<Rightarrow> pngtuber" where
  "initAudio st =
     st\<lparr>initAudioCalls := initAudioCalls st + 1, micRequests := micRequests st + 1\<rparr>"

text \<open>
  One run of \<open>processAudio\<close>, the closure of \<open>startAudioLoop\<close>, on the bytes that
  \<open>getByteFrequencyData\<close> wrote into \<open>dataArray\<close>.
\<close>

definition frameVolume :: "8 word list \<Rightarrow> jsnum" where
  "frameVolume dataArray =
     (let sum = foldl (\<lambda>sum b. js_add sum (Fin (of_nat (unat b)))) (Fin 0) dataArray;
          average = js_div sum (Fin (of_nat (length dataArray)))
      in Math_round (js_mul (js_div average (Fin 255)) (Fin 100)))"

definition processAudio :: "8 word list \<Rightarrow> pngtuber \<Rightarrow> pngtuber" where
  "processAudio dataArray st =
     (let st' = processVolume st (frameVolume dataArray)
      in st'\<lparr>frameCallbacks := frameCallbacks st' + 1\<rparr>)"

definition startAudioLoop :: "8 word list \<Rightarrow> pngtuber \<Rightarrow> pngtuber" where
  "startAudioLoop dataArray st = processAudio dataArray st"

definition initAudio_granted :: "8 word list \<Rightarrow> pngtuber \<Rightarrow> pngtuber" where
  "initAudio_granted dataArray st = startAudioLoop dataArray (st\<lparr>micPromptHidden := True\<rparr>)"

definition initAudio_denied :: "pngtuber \<Rightarrow> pngtuber" where
  "initAudio_denied st = st\<lparr>micDeniedShown := True\<rparr>"

text \<open>The four socket callbacks and the timeout callback set up by \<open>initOBSWebSocket\<close>.\<close>

definition onopen :: "nat \<Rightarrow> pngtuber \<Rightarrow> js_error + pngtuber" where
  "onopen now st =
     (let st1 = st\<lparr>obsConnected := True, micPromptHidden := True\<rparr>
      in if obsPassword st1 \<noteq> [] then obsAuthenticate st1 else startOBSAudioLoop now st1)"

definition onmessage :: "nat \<Rightarrow> pngtuber \<Rightarrow> ws_data \<Rightarrow> js_error + pngtuber" where
  "onmessage now st data =
     (case JSON_parse data of Inl e \<Rightarrow> Inl e | Inr message \<Rightarrow> handleOBSMessage now st message)"

definition onerror :: "pngtuber \<Rightarrow> pngtuber" where
  "onerror st = initAudio st"

definition onclose :: "pngtuber \<Rightarrow> pngtuber" where
  "onclose st = st\<lparr>obsConnected := False\<rparr>"

definition timeoutCallback :: "pngtuber \<Rightarrow> pngtuber" where
  "timeoutCallback st =
     (if \<not> obsConnected st
      then initAudio (case obsWebSocket st of
                        None \<Rightarrow> st
                      | Some ws \<Rightarrow> st\<lparr>obsWebSocket := Some (ws_close ws)\<rparr>)
      else st)"

text \<open>
  What the page gives the constructor. \<open>new WebSocket(wsUrl)\<close> throws a
  \<open>SyntaxError\<close> on a URL it cannot parse: which URLs parse is \<open>urlOk\<close>.
  \<open>hasVolumeBar\<close> tells whether the document has the element \<open>volume-bar\<close>.
\<close>

record host =
  urlOk :: "string \<Rightarrow> bool"
  hasVolumeBar :: bool

definition new_WebSocket :: "host \<Rightarrow> string \<Rightarrow> js_error + websocket" where
  "new_WebSocket h wsUrl =
     (if urlOk h wsUrl then Inr \<lparr>url = wsUrl, readyState = CONNECTING, sent = []\<rparr>
      else Inl SyntaxError)"

definition initOBSWebSocket :: "host \<Rightarrow> pngtuber \<Rightarrow> pngtuber" where
  "initOBSWebSocket h st =
     (case new_WebSocket h (''ws://127.0.0.1:'' @ obsPort st) of
        Inl error \<Rightarrow> initAudio st
      | Inr ws \<Rightarrow>
          st\<lparr>obsWebSocket := Some ws,
             webSocketsCreated := webSocketsCreated st + 1,
             deadlineTimer := True\<rparr>)"

text \<open>
  The URL query as \<open>URLSearchParams\<close> reads it: \<open>has\<close> and \<open>get\<close> look at the
  first pair with the key.
\<close>

type_synonym url_params = "(string \<times> string) list"

definition parseURLParams :: "url_params \<Rightarrow> pngtuber \<Rightarrow> pngtuber" where
  "parseURLParams params st =
     (let st1 = (case map_of params ''threshold'' of
                   None \<Rightarrow> st
                 | Some v \<Rightarrow> st\<lparr>threshold := parseInt v\<rparr>);
          st2 = st1\<lparr>obsPort := (case map_of params ''port'' of
                                   None \<Rightarrow> ''4455''
                                 | Some v \<Rightarrow> if v = [] then ''4455'' else v)\<rparr>;
          st3 = st2\<lparr>obsPassword := (case map_of params ''password'' of
                                       None \<Rightarrow> []
                                     | Some v \<Rightarrow> v)\<rparr>
      in (case map_of params ''source'' of
            None \<Rightarrow> st3
          | Some v \<Rightarrow> st3\<lparr>obsAudioSource := v\<rparr>))"

definition checkOBSMode :: "host \<Rightarrow> url_params \<Rightarrow> pngtuber \<Rightarrow> pngtuber" where
  "checkOBSMode h params st =
     (if map_of params ''obs'' = Some ''true'' then initOBSWebSocket h st else st)"

text \<open>The field initialisers of the constructor, then its three calls.\<close>

definition fields :: "host \<Rightarrow> pngtuber" where
  "fields h =
     \<lparr>threshold = Fin 20, isTalking = False, smoothedVolume = Fin 0,
      obsWebSocket = None, obsConnected = False, obsAudioSource = ''Mic/Aux'',
      obsPort = [], obsPassword = [],
      volumeBar = hasVolumeBar h, volumeBarWidth = None, avatarTalking = False,
      micPromptHidden = False, micDeniedShown = False,
      deadlineTimer = False, pollTimers = 0, micRequests = 0, frameCallbacks = 0,
      mouthUpdates = [], initAudioCalls = 0, webSocketsCreated = 0\<rparr>"

definition constructor :: "host \<Rightarrow> url_params \<Rightarrow> pngtuber" where
  "constructor h params = checkOBSMode h params (parseURLParams params (fields h))"

section \<open>The microphone-only variant (unnamed/part_000)\<close>

text \<open>
  The earlier file has no socket: \<open>checkOBSMode\<close> starts the microphone at once, and
  \<open>processAudio\<close> carries the smoothing and the threshold test in its own body.
\<close>

definition processAudio_micOnly :: "8 word list \<Rightarrow> pngtuber \<Rightarrow> pngtuber" where
  "processAudio_micOnly dataArray st =
     (let volume = frameVolume dataArray;
          sv = js_add (js_mul (smoothedVolume st) (toDouble (7 / 10)))
                      (js_mul volume (toDouble (3 / 10)));
          st0 = st\<lparr>smoothedVolume := sv\<rparr>;
          st1 = (if volumeBar st0 then st0\<lparr>volumeBarWidth := Some (smoothedVolume st0)\<rparr>
                 else st0);
          shouldTalk = js_gt (smoothedVolume st1) (threshold st1);
          st2 = (if shouldTalk \<noteq> isTalking st1
                 then updateMouthState (st1\<lparr>isTalking := shouldTalk\<rparr>)
                 else st1)
      in st2\<lparr>frameCallbacks := frameCallbacks st2 + 1\<rparr>)"

definition checkOBSMode_micOnly :: "url_params \<Rightarrow> pngtuber \<Rightarrow> pngtuber" where
  "checkOBSMode_micOnly params st =
     (if map_of params ''obs'' = Some ''true'' then initAudio st else st)"

definition constructor_micOnly :: "host \<Rightarrow> url_params \<Rightarrow> pngtuber" where
  "constructor_micOnly h params =
     checkOBSMode_micOnly params
       (case map_of params ''threshold'' of
          None \<Rightarrow> fields h
        | Some v \<Rightarrow> (fields h)\<lparr>threshold := parseInt v\<rparr>)"

section \<open>The event loop\<close>

text \<open>
  One event is one callback run to completion. The socket events follow the WebSocket
  interface: the connection is established (\<open>readyState\<close> becomes \<open>OPEN\<close>, then
  \<open>onopen\<close>); a message arrives on an open socket; the connection fails
  (\<open>readyState\<close> becomes \<open>CLOSED\<close>, then \<open>onerror\<close>, then \<open>onclose\<close>, with
  nothing in between); the connection closes without failure (\<open>CLOSED\<close>, then \<open>onclose\<close>).
  \<open>Deadline\<close> is the 3000 ms timeout, \<open>PollTimer\<close> one 16 ms timeout,
  \<open>MicGranted\<close> and \<open>MicDenied\<close> the settling of one \<open>getUserMedia\<close> promise,
  \<open>AnimationFrame\<close> one animation-frame callback; the byte lists are the analyser's
  data at that moment. \<open>ThresholdInput\<close> and \<open>EnableMicClick\<close> are the listeners
  of \<open>bindEvents\<close>.

  An exception that leaves a callback is reported by the browser and ends the callback.
  The only throw that the program can meet is that of \<open>onmessage\<close> on malformed
  data, before the callback has written anything; \<open>obsSend\<close> guards the one call
  that could throw otherwise.
\<close>

datatype event =
    WsOpen
  | WsMessage ws_data
  | WsError
  | WsClose
  | Deadline
  | PollTimer
  | MicGranted "8 word list"
  | MicDenied
  | AnimationFrame "8 word list"
  | ThresholdInput string
  | EnableMicClick

definition socketState :: "pngtuber \<Rightarrow> ready_state option" where
  "socketState st = map_option readyState (obsWebSocket st)"

definition socketSent :: "pngtuber \<Rightarrow> out_msg list" where
  "socketSent st = (case obsWebSocket st of None \<Rightarrow> [] | Some ws \<Rightarrow> sent ws)"

definition setReadyState :: "ready_state \<Rightarrow> pngtuber \<Rightarrow> pngtuber" where
  "setReadyState r st =
     st\<lparr>obsWebSocket := map_option (\<lambda>ws. ws\<lparr>readyState := r\<rparr>) (obsWebSocket st)\<rparr>"

definition uncaught :: "pngtuber \<Rightarrow> js_error + pngtuber \<Rightarrow> pngtuber" where
  "uncaught st r = (case r of Inl e \<Rightarrow> st | Inr st' \<Rightarrow> st')"

fun enabled :: "pngtuber \<Rightarrow> event \<Rightarrow> bool" where
  "enabled st WsOpen = (socketState st = Some CONNECTING)"
| "enabled st (WsMessage data) = (socketState st = Some OPEN)"
| "enabled st WsError = (socketState st \<in> {Some CONNECTING, Some OPEN, Some CLOSING})"
| "enabled st WsClose = (socketState st \<in> {Some OPEN, Some CLOSING})"
| "enabled st Deadline = deadlineTimer st"
| "enabled st PollTimer = (0 < pollTimers st)"
| "enabled st (MicGranted dataArray) = (0 < micRequests st)"
| "enabled st MicDenied = (0 < micRequests st)"
| "enabled st (AnimationFrame dataArray) = (0 < frameCallbacks st)"
| "enabled st (ThresholdInput v) = True"
| "enabled st EnableMicClick = True"

fun fire :: "nat \<Rightarrow> event \<Rightarrow> pngtuber \<Rightarrow> pngtuber" where
  "fire now WsOpen st = (let st1 = setReadyState OPEN st in uncaught st1 (onopen now st1))"
| "fire now (WsMessage data) st = uncaught st (onmessage now st data)"
| "fire now WsError st = onclose (onerror (setReadyState CLOSED st))"
| "fire now WsClose st = onclose (setReadyState CLOSED st)"
| "fire now Deadline st = timeoutCallback (st\<lparr>deadlineTimer := False\<rparr>)"
| "fire now PollTimer st =
     (let st1 = st\<lparr>pollTimers := pollTimers st - 1\<rparr> in uncaught st1 (pollAudio now st1))"
| "fire now (MicGranted dataArray) st =
     initAudio_granted dataArray (st\<lparr>micRequests := micRequests st - 1\<rparr>)"
| "fire now MicDenied st = initAudio_denied (st\<lparr>micRequests := micRequests st - 1\<rparr>)"
| "fire now (AnimationFrame dataArray) st =
     processAudio dataArray (st\<lparr>frameCallbacks := frameCallbacks st - 1\<rparr>)"
| "fire now (ThresholdInput v) st = st\<lparr>threshold := parseInt v\<rparr>"
| "fire now EnableMicClick st = initAudio st"

text \<open>
  A session is a list of events, each with the clock reading \<open>Date.now()\<close> at which it
  runs. \<open>admissible\<close> holds when each event can occur in the state it meets.
\<close>

fun run :: "pngtuber \<Rightarrow> (nat \<times> event) list \<Rightarrow> pngtuber" where
  "run st [] = st"
| "run st ((now, ev) # evs) = run (fire now ev st) evs"

fun admissible :: "pngtuber \<Rightarrow> (nat \<times> event) list \<Rightarrow> bool" where
  "admissible st [] = True"
| "admissible st ((now, ev) # evs) = (enabled st ev \<and> admissible (fire now ev st) evs)"

text \<open>Feeding a list of samples to \<open>processVolume\<close>, in order.\<close>

fun feed :: "pngtuber \<Rightarrow> jsnum list \<Rightarrow> pngtuber" where
  "feed st [] = st"
| "feed st (v # vs) = feed (processVolume st v) vs"

section \<open>Vocabulary of the properties\<close>

text \<open>
  The smoothing step and the clamp as the specification writes them:
  \<open>smoothedVolume * 0.7 + sample * 0.3\<close> and \<open>clamp(x, lo, hi)\<close>, in the arithmetic
  of the program.
\<close>

definition ema :: "jsnum \<Rightarrow> jsnum \<Rightarrow> jsnum" where
  "ema s v = js_add (js_mul s (toDouble (7 / 10))) (js_mul v (toDouble (3 / 10)))"

definition clamp :: "jsnum \<Rightarrow> jsnum \<Rightarrow> jsnum \<Rightarrow> jsnum" where
  "clamp x lo hi = (if js_lt x lo then lo else if js_lt hi x then hi else x)"

text \<open>A sample or a smoothed volume in \<open>[0, 100]\<close>.\<close>

definition inRange :: "jsnum \<Rightarrow> bool" where
  "inRange x = (js_le (Fin 0) x \<and> js_le x (Fin 100))"

text \<open>
  \<open>sameSide st vs\<close>: fed in order from \<open>st\<close>, each sample of \<open>vs\<close> leaves the
  smoothed volume on the side of the threshold that the talk state of \<open>st\<close> names.
\<close>

fun sameSide :: "pngtuber \<Rightarrow> jsnum list \<Rightarrow> bool" where
  "sameSide st [] = True"
| "sameSide st (v # vs) =
     (js_gt (smoothedVolume (processVolume st v)) (threshold st) = isTalking st
      \<and> sameSide (processVolume st v) vs)"

text \<open>
  A page whose document has the volume bar and on which every socket URL parses, and the
  messages of the control protocol that the sessions below receive.
\<close>

definition page :: host where
  "page = \<lparr>urlOk = (\<lambda>u. True), hasVolumeBar = True\<rparr>"

definition hello :: ws_data where
  "hello = Json \<lparr>msg_op = 0, msg_d = None\<rparr>"

definition identified :: ws_data where
  "identified = Json \<lparr>msg_op = 2, msg_d = None\<rparr>"

definition volumeResponse :: "jsnum \<Rightarrow> in_msg" where
  "volumeResponse x =
     \<lparr>msg_op = 7,
      msg_d = Some \<lparr>requestType = ''GetInputVolume'',
                    responseData = Some \<lparr>inputVolumeMul = Some x\<rparr>\<rparr>\<rparr>"

text \<open>A socket that is closing or closed.\<close>

definition remoteDead :: "pngtuber \<Rightarrow> bool" where
  "remoteDead st = (socketState st = Some CLOSING \<or> socketState st = Some CLOSED)"

text \<open>
  The remote source can still deliver (\<open>remoteLive\<close>); the microphone has been
  asked for or its loop runs (\<open>localStarted\<close>). \<open>exclusive\<close> is the invariant
  that keeps the two apart: the microphone is only ever started by a call of
  \<open>initAudio\<close>, and after such a call the socket is absent, closing or closed.
\<close>

definition remoteLive :: "pngtuber \<Rightarrow> bool" where
  "remoteLive st = (socketState st = Some CONNECTING \<or> socketState st = Some OPEN)"

definition localStarted :: "pngtuber \<Rightarrow> bool" where
  "localStarted st = (0 < micRequests st \<or> 0 < frameCallbacks st)"

definition exclusive :: "pngtuber \<Rightarrow> bool" where
  "exclusive st =
     ((localStarted st \<longrightarrow> 0 < initAudioCalls st)
      \<and> (0 < initAudioCalls st \<longrightarrow> \<not> remoteLive st))"

text \<open>
  Three pages just loaded: with \<open>?obs=true\<close>, with \<open>?obs=true&password=secret\<close>,
  and with no parameter.
\<close>

definition obsSession :: pngtuber where
  "obsSession = constructor page [(''obs'', ''true'')]"

definition passwordSession :: pngtuber where
  "passwordSession = constructor page [(''obs'', ''true''), (''password'', ''secret'')]"

definition micSession :: pngtuber where
  "micSession = constructor page []"

section \<open>Properties of the arithmetic\<close>

subsection \<open>Powers of two and the binary exponent\<close>

lemma pow2_pos: "0 < pow2 e"
  by (simp add: pow2_def)

lemma pow2_add: "pow2 (a + b) = pow2 a * pow2 b"
proof -
  have "pow2 e = 2 powi e" for e
    by (simp add: pow2_def power_int_def inverse_eq_divide power_one_over)
  then show ?thesis by (simp add: power_int_add)
qed

lemma pow2_mono: "a \<le> b \<Longrightarrow> pow2 a \<le> pow2 b"
proof -
  have "pow2 e = 2 powi e" for e
    by (simp add: pow2_def power_int_def inverse_eq_divide power_one_over)
  then show "a \<le> b \<Longrightarrow> pow2 a \<le> pow2 b" by (simp add: power_int_increasing)
qed

lemma pow2_less_cancel: "pow2 a < pow2 b \<Longrightarrow> a < b"
  using pow2_mono [of b a] by (cases "a < b") auto

lemma pow2_nat: "0 \<le> e \<Longrightarrow> pow2 e = 2 ^ nat e"
  by (simp add: pow2_def)

lemma pow2_as_multiple: "a \<le> b \<Longrightarrow> pow2 b = of_int (2 ^ nat (b - a)) * pow2 a"
proof -
  assume "a \<le> b"
  then have "pow2 b = pow2 (b - a) * pow2 a" "0 \<le> b - a"
    by (simp_all add: pow2_add [symmetric])
  then show ?thesis by (simp add: pow2_nat)
qed

lemma ilog2_bounds:
  assumes "0 < q"
  shows "pow2 (ilog2 q) \<le> q \<and> q < pow2 (ilog2 q + 1)"
proof -
  obtain a b where ab: "quotient_of q = (a, b)" by (cases "quotient_of q")
  have b: "0 < b" using ab quotient_of_denom_pos by blast
  have q: "q = of_int a / of_int b" using ab quotient_of_div by blast
  have a: "0 < a" using assms b q by (simp add: zero_less_divide_iff)
  define la where "la = bitlen a"
  define lb where "lb = bitlen b"
  have la1: "1 \<le> la"
    using a bitlen_eq_zero_iff [of a] bitlen_nonneg [of a] by (simp add: la_def)
  have lb1: "1 \<le> lb"
    using b bitlen_eq_zero_iff [of b] bitlen_nonneg [of b] by (simp add: lb_def)
  have "2 ^ nat (la - 1) \<le> a" "a < 2 ^ nat la" "2 ^ nat (lb - 1) \<le> b" "b < 2 ^ nat lb"
    using bitlen_bounds [OF a] bitlen_bounds [OF b] by (simp_all add: la_def lb_def)
  then have ra: "pow2 (la - 1) \<le> of_int a" "of_int a < pow2 la"
    and rb: "pow2 (lb - 1) \<le> of_int b" "of_int b < pow2 lb"
    using la1 lb1 by (simp_all add: pow2_nat)
  have rbpos: "(0::rat) < of_int b" using b by simp
  have up: "q < pow2 (la - lb + 1)"
  proof -
    have "of_int a < pow2 la" by (rule ra)
    also have "\<dots> = pow2 (la - lb + 1) * pow2 (lb - 1)"
      by (simp add: pow2_add [symmetric])
    also have "\<dots> \<le> pow2 (la - lb + 1) * of_int b"
      using rb(1) pow2_pos [of "la - lb + 1"] by simp
    finally show ?thesis using rbpos by (simp add: q pos_divide_less_eq)
  qed
  have lo: "pow2 (la - lb - 1) \<le> q"
  proof -
    have "pow2 (la - lb - 1) * of_int b \<le> pow2 (la - lb - 1) * pow2 lb"
      using rb(2) pow2_pos [of "la - lb - 1"] by simp
    also have "\<dots> = pow2 (la - 1)"
      by (simp add: pow2_add [symmetric])
    also have "\<dots> \<le> of_int a" by (rule ra)
    finally show ?thesis using rbpos by (simp add: q pos_le_divide_eq)
  qed
  show ?thesis
  proof (cases "pow2 (la - lb) \<le> q")
    case True
    then have "ilog2 q = la - lb" by (simp add: ilog2_def ab la_def lb_def)
    with True up show ?thesis by simp
  next
    case False
    then have "ilog2 q = la - lb - 1" by (simp add: ilog2_def ab la_def lb_def)
    with False lo show ?thesis by simp
  qed
qed

lemma ilog2_unique:
  assumes "pow2 e \<le> q" "q < pow2 (e + 1)"
  shows "ilog2 q = e"
proof -
  have q: "0 < q" using assms(1) pow2_pos [of e] by simp
  have "pow2 (ilog2 q) < pow2 (e + 1)" "pow2 e < pow2 (ilog2 q + 1)"
    using ilog2_bounds [OF q] assms by auto
  then have "ilog2 q < e + 1" "e < ilog2 q + 1"
    by (auto dest: pow2_less_cancel)
  then show ?thesis by simp
qed

lemma ilog2_mono:
  assumes "0 < p" "p \<le> q"
  shows "ilog2 p \<le> ilog2 q"
proof -
  have "0 < q" using assms by simp
  then have "pow2 (ilog2 p) < pow2 (ilog2 q + 1)"
    using ilog2_bounds [OF assms(1)] ilog2_bounds [of q] assms(2) by auto
  then show ?thesis by (auto dest: pow2_less_cancel)
qed

subsection \<open>Rounding to the nearest integer, ties to even\<close>

lemma roundHalfEven_cases:
  "roundHalfEven x = \<lfloor>x\<rfloor> \<and> x - of_int \<lfloor>x\<rfloor> \<le> 1 / 2
   \<or> roundHalfEven x = \<lfloor>x\<rfloor> + 1 \<and> 1 / 2 \<le> x - of_int \<lfloor>x\<rfloor>"
  by (auto simp: roundHalfEven_def Let_def)

lemma roundHalfEven_of_int: "roundHalfEven (of_int n) = n"
  by (simp add: roundHalfEven_def)

lemma roundHalfEven_mono:
  assumes "x \<le> y"
  shows "roundHalfEven x \<le> roundHalfEven y"
proof (cases "\<lfloor>x\<rfloor> = \<lfloor>y\<rfloor>")
  case True
  then have "x - of_int \<lfloor>x\<rfloor> \<le> y - of_int \<lfloor>y\<rfloor>" using assms by simp
  then show ?thesis using True by (auto simp: roundHalfEven_def Let_def)
next
  case False
  then have "\<lfloor>x\<rfloor> + 1 \<le> \<lfloor>y\<rfloor>" using floor_mono [OF assms] by linarith
  moreover have "roundHalfEven x \<le> \<lfloor>x\<rfloor> + 1" "\<lfloor>y\<rfloor> \<le> roundHalfEven y"
    using roundHalfEven_cases [of x] roundHalfEven_cases [of y] by auto
  ultimately show ?thesis by linarith
qed

lemma roundHalfEven_near:
  assumes "of_int m - 1 / 2 < x" "x < of_int m + 1 / 2"
  shows "roundHalfEven x = m"
proof (cases "of_int m \<le> x")
  case True
  then have "\<lfloor>x\<rfloor> = m" using assms(2) by (intro floor_unique) simp_all
  then show ?thesis using assms(2) by (simp add: roundHalfEven_def)
next
  case False
  then have "\<lfloor>x\<rfloor> = m - 1" using assms(1) by (intro floor_unique) simp_all
  then show ?thesis using assms(1) by (simp add: roundHalfEven_def)
qed

lemma roundHalfEven_tie:
  assumes "x = of_int f + 1 / 2"
  shows "roundHalfEven x = (if even f then f else f + 1)"
proof -
  have "\<lfloor>x\<rfloor> = f" using assms by (intro floor_unique) simp_all
  then show ?thesis using assms by (simp add: roundHalfEven_def)
qed

lemma roundHalfEven_error: "\<bar>of_int (roundHalfEven x) - x\<bar> \<le> 1 / 2"
proof -
  have f: "of_int \<lfloor>x\<rfloor> \<le> x" "x < of_int \<lfloor>x\<rfloor> + 1" by linarith+
  from roundHalfEven_cases [of x] show ?thesis
  proof (elim disjE conjE)
    assume "roundHalfEven x = \<lfloor>x\<rfloor>" "x - of_int \<lfloor>x\<rfloor> \<le> 1 / 2"
    then show ?thesis using f by simp
  next
    assume "roundHalfEven x = \<lfloor>x\<rfloor> + 1" "1 / 2 \<le> x - of_int \<lfloor>x\<rfloor>"
    then show ?thesis using f by simp
  qed
qed

subsection \<open>Rounding to a double\<close>

lemma grid_mono: "x \<le> y \<Longrightarrow> grid e x \<le> grid e y"
  using pow2_pos [of e]
  by (simp add: grid_def roundHalfEven_mono divide_right_mono)

lemma grid_fix: "grid e (of_int n * pow2 e) = of_int n * pow2 e"
  using pow2_pos [of e] by (simp add: grid_def roundHalfEven_of_int)

lemma grid_nonneg: "0 \<le> x \<Longrightarrow> 0 \<le> grid e x"
  using grid_mono [of 0 x e] grid_fix [of e 0] by simp

lemma grid_error: "\<bar>grid e q - q\<bar> \<le> pow2 e / 2"
proof -
  let ?m = "of_int (roundHalfEven (q / pow2 e)) :: rat"
  have p: "0 < pow2 e" by (rule pow2_pos)
  then have "grid e q - q = (?m - q / pow2 e) * pow2 e"
    by (simp add: grid_def left_diff_distrib)
  then have "\<bar>grid e q - q\<bar> = \<bar>?m - q / pow2 e\<bar> * pow2 e"
    using p by (simp add: abs_mult)
  also have "\<dots> \<le> 1 / 2 * pow2 e"
    using p roundHalfEven_error [of "q / pow2 e"] by (intro mult_right_mono) simp_all
  finally show ?thesis by simp
qed

lemma expo_mono: "0 < p \<Longrightarrow> p \<le> q \<Longrightarrow> expo p \<le> expo q"
  using ilog2_mono [of p q] by (simp add: expo_def)

lemma below_binade: "0 < p \<Longrightarrow> p < pow2 (expo p + 53)"
proof -
  assume p: "0 < p"
  have "ilog2 p + 1 \<le> expo p + 53" by (simp add: expo_def)
  then have "pow2 (ilog2 p + 1) \<le> pow2 (expo p + 53)" by (rule pow2_mono)
  with ilog2_bounds [OF p] show ?thesis by simp
qed

lemma above_binade: "0 < q \<Longrightarrow> - 1074 < expo q \<Longrightarrow> pow2 (expo q + 52) \<le> q"
proof -
  assume q: "0 < q" and e: "- 1074 < expo q"
  then have "expo q + 52 = ilog2 q" by (simp add: expo_def max_def split: if_splits)
  with ilog2_bounds [OF q] show ?thesis by simp
qed

lemma roundMagnitude_mono:
  assumes "0 < p" "p \<le> q"
  shows "roundMagnitude p \<le> roundMagnitude q"
proof (cases "expo p = expo q")
  case True
  then show ?thesis using assms by (simp add: roundMagnitude_def grid_mono)
next
  case False
  have q: "0 < q" using assms by simp
  from False have lt: "expo p < expo q" using expo_mono [OF assms] by simp
  define b where "b = pow2 (expo q + 52)"
  have "- 1074 \<le> expo p" by (simp add: expo_def)
  with lt have "- 1074 < expo q" by simp
  then have bq: "b \<le> q" unfolding b_def by (rule above_binade [OF q])
  have "pow2 (expo p + 53) \<le> b" unfolding b_def using lt by (intro pow2_mono) simp
  with below_binade [OF assms(1)] have pb: "p \<le> b" by simp
  have "b = of_int (2 ^ nat (expo q + 52 - expo p)) * pow2 (expo p)"
    unfolding b_def using lt by (intro pow2_as_multiple) simp
  then have fp: "grid (expo p) b = b" by (metis grid_fix)
  have "b = of_int (2 ^ nat (expo q + 52 - expo q)) * pow2 (expo q)"
    unfolding b_def by (intro pow2_as_multiple) simp
  then have fq: "grid (expo q) b = b" by (metis grid_fix)
  have "grid (expo p) p \<le> grid (expo p) b" using pb by (rule grid_mono)
  also have "\<dots> = grid (expo q) b" by (simp add: fp fq)
  also have "\<dots> \<le> grid (expo q) q" using bq by (rule grid_mono)
  finally show ?thesis by (simp add: roundMagnitude_def)
qed

lemma roundMagnitude_nonneg: "0 \<le> q \<Longrightarrow> 0 \<le> roundMagnitude q"
  by (simp add: roundMagnitude_def grid_nonneg)

lemma toDouble_mono:
  assumes "p \<le> q"
  shows "js_le (toDouble p) (toDouble q)"
proof -
  consider "0 < p" | "p \<le> 0" "0 \<le> q" | "q < 0" using assms by linarith
  then show ?thesis
  proof cases
    case 1
    then have "roundMagnitude \<bar>p\<bar> \<le> roundMagnitude \<bar>q\<bar>" "0 < q"
      using assms roundMagnitude_mono [of p q] by simp_all
    with 1 show ?thesis by (simp add: toDouble_def Let_def)
  next
    case 2
    have "0 \<le> roundMagnitude \<bar>p\<bar>" "0 \<le> roundMagnitude \<bar>q\<bar>"
      by (simp_all add: roundMagnitude_nonneg)
    with 2 show ?thesis by (simp add: toDouble_def Let_def)
  next
    case 3
    then have "roundMagnitude \<bar>q\<bar> \<le> roundMagnitude \<bar>p\<bar>" "p < 0"
      using assms roundMagnitude_mono [of "- q" "- p"] by simp_all
    with 3 show ?thesis by (simp add: toDouble_def Let_def)
  qed
qed

lemma toDouble_not_NaN [simp]: "toDouble q \<noteq> NaN"
  by (simp add: toDouble_def Let_def)

lemma toDouble_0 [simp]: "toDouble 0 = Fin 0"
  by (simp add: toDouble_def)

text \<open>A rational in the binade \<open>[2 ^ (e + 52), 2 ^ (e + 53))\<close> is rounded on the grid of spacing \<open>2 ^ e\<close>.\<close>

lemma toDouble_binade:
  assumes "pow2 (e + 52) \<le> q" "q < pow2 (e + 53)" "- 1074 \<le> e" "e \<le> 970"
    and "roundHalfEven (q / pow2 e) = m"
  shows "toDouble q = Fin (of_int m * pow2 e)"
proof -
  have q: "0 < q" using assms(1) pow2_pos [of "e + 52"] by simp
  have "ilog2 q = e + 52" using assms(1,2) by (intro ilog2_unique) (simp_all add: add.commute)
  then have e: "expo q = e" using assms(3) by (simp add: expo_def)
  have r: "roundMagnitude q = of_int m * pow2 e"
    using assms(5) by (simp add: roundMagnitude_def e grid_def)
  have "grid e q \<le> grid e (of_int (2 ^ 53) * pow2 e)"
    using assms(2) pow2_as_multiple [of e "e + 53"] by (intro grid_mono) simp
  also have "\<dots> = pow2 (e + 53)"
    using pow2_as_multiple [of e "e + 53"] by (simp only: grid_fix) simp
  also have "\<dots> < pow2 1024"
    using assms(4) pow2_mono [of "e + 53" 1023] by (simp add: pow2_def)
  finally have "roundMagnitude q < pow2 1024" by (simp add: roundMagnitude_def e)
  then show ?thesis using q r by (simp add: toDouble_def Let_def)
qed

text \<open>Integers below \<open>2 ^ 53\<close> in magnitude are doubles.\<close>

lemma toDouble_of_int:
  assumes "\<bar>n\<bar> < 2 ^ 53"
  shows "toDouble (of_int n) = Fin (of_int n)"
proof (cases "n = 0")
  case True
  then show ?thesis by (simp add: toDouble_def)
next
  case False
  define k :: rat where "k = of_int \<bar>n\<bar>"
  have k: "0 < k" "k < pow2 53" using False assms
    by (simp_all add: k_def pow2_def of_int_less_numeral_power_cancel_iff [where ?'a = rat, symmetric] del: of_int_less_numeral_power_cancel_iff)
  have "pow2 (ilog2 k) < pow2 53" using ilog2_bounds [OF k(1)] k(2) by simp
  then have "ilog2 k < 53" by (rule pow2_less_cancel)
  then have e: "expo k \<le> 0" "- 1074 \<le> expo k" by (simp_all add: expo_def)
  then have "pow2 0 = of_int (2 ^ nat (0 - expo k)) * pow2 (expo k)"
    by (intro pow2_as_multiple)
  then have "k = of_int (\<bar>n\<bar> * 2 ^ nat (0 - expo k)) * pow2 (expo k)"
    by (simp add: k_def pow2_def)
  then have "grid (expo k) k = k" by (metis grid_fix)
  then have r: "roundMagnitude k = k" by (simp add: roundMagnitude_def)
  have "k < pow2 1024" using k(2) pow2_mono [of 53 1024] by simp
  then show ?thesis using False r by (auto simp: toDouble_def Let_def k_def)
qed

lemma toDouble_error:
  assumes "0 \<le> q" "q < 128"
  shows "\<exists>r. toDouble q = Fin r \<and> \<bar>r - q\<bar> \<le> 1 / 140737488355328"
proof (cases "q = 0")
  case True
  then show ?thesis by simp
next
  case False
  then have q: "0 < q" using assms(1) by simp
  have "pow2 (ilog2 q) < pow2 7" using ilog2_bounds [OF q] assms(2) by (simp add: pow2_def)
  then have "ilog2 q < 7" by (rule pow2_less_cancel)
  then have "expo q \<le> - 46" by (simp add: expo_def)
  then have "pow2 (expo q) \<le> pow2 (- 46)" by (rule pow2_mono)
  moreover have "pow2 (- 46) / 2 = 1 / 140737488355328" by (simp add: pow2_def)
  ultimately have e: "\<bar>roundMagnitude q - q\<bar> \<le> 1 / 140737488355328"
    using grid_error [of "expo q" q] unfolding roundMagnitude_def by linarith
  then have "roundMagnitude q < 129" using assms(2) by linarith
  also have "\<dots> < pow2 1024" by (simp add: pow2_def)
  finally show ?thesis using q e by (simp add: toDouble_def Let_def)
qed

lemma toDouble_between:
  assumes "lo \<le> q" "q \<le> hi" "toDouble lo = Fin lo'" "toDouble hi = Fin hi'"
  shows "\<exists>r. toDouble q = Fin r \<and> lo' \<le> r \<and> r \<le> hi'"
  using toDouble_mono [OF assms(1)] toDouble_mono [OF assms(2)] assms(3,4)
  by (cases "toDouble q") simp_all

subsection \<open>Comparisons\<close>

lemma js_le_not_lt: "js_le a b \<Longrightarrow> \<not> js_lt b a"
  by (cases a; cases b) simp_all

lemma js_le_Fin [simp]: "js_le (Fin a) (Fin b) = (a \<le> b)"
  by (simp add: not_less)

lemma js_mul_mono:
  assumes "js_le a b" "0 < c"
  shows "js_le (js_mul a (Fin c)) (js_mul b (Fin c))"
proof -
  have "js_le (toDouble (x * c)) (toDouble (y * c))" if "x \<le> y" for x y
    using that assms(2) by (intro toDouble_mono) simp
  moreover have "js_le (toDouble q) PosInf" "js_le NegInf (toDouble q)" for q
    by (cases "toDouble q"; simp)+
  ultimately show ?thesis
    using assms by (cases a; cases b) (simp_all add: signedInf_def)
qed

lemma js_add_mono_right:
  assumes "js_le a b"
  shows "\<not> js_lt (js_add x b) (js_add x a)"
proof -
  have "\<not> js_lt (toDouble (z + q)) (toDouble (z + p))" if "p \<le> q" for p q z
    using that by (intro js_le_not_lt toDouble_mono) simp
  moreover have "\<not> js_lt PosInf y" "\<not> js_lt y NegInf" for y
    by (cases y; simp)+
  ultimately show ?thesis
    using assms by (cases a; cases b; cases x) simp_all
qed

lemma js_add_mono_left:
  assumes "js_le a b"
  shows "\<not> js_lt (js_add b x) (js_add a x)"
proof -
  have "\<not> js_lt (toDouble (q + z)) (toDouble (p + z))" if "p \<le> q" for p q z
    using that by (intro js_le_not_lt toDouble_mono) simp
  moreover have "\<not> js_lt PosInf y" "\<not> js_lt y NegInf" for y
    by (cases y; simp)+
  ultimately show ?thesis
    using assms by (cases a; cases b; cases x) simp_all
qed

subsection \<open>The literals 0.7 and 0.3, and the products at the ends of the range\<close>

lemma lit_07: "toDouble (7 / 10) = Fin (3152519739159347 / 4503599627370496)"
  using toDouble_binade [of "- 53" "7 / 10" 6305039478318694]
  by (simp add: pow2_def roundHalfEven_near)

lemma lit_03: "toDouble (3 / 10) = Fin (5404319552844595 / 18014398509481984)"
  using toDouble_binade [of "- 54" "3 / 10" 5404319552844595]
  by (simp add: pow2_def roundHalfEven_near)

lemma tenth_plus_fifth:
  "js_add (toDouble (1 / 10)) (toDouble (1 / 5)) = Fin (5404319552844596 / 18014398509481984)"
  "js_add (toDouble (1 / 10)) (toDouble (1 / 5)) \<noteq> toDouble (3 / 10)"
proof -
  have a: "toDouble (1 / 10) = Fin (3602879701896397 / 36028797018963968)"
    using toDouble_binade [of "- 56" "1 / 10" 7205759403792794]
    by (simp add: pow2_def roundHalfEven_near)
  have b: "toDouble (1 / 5) = Fin (3602879701896397 / 18014398509481984)"
    using toDouble_binade [of "- 55" "1 / 5" 7205759403792794]
    by (simp add: pow2_def roundHalfEven_near)
  have "toDouble (10808639105689191 / 36028797018963968)
        = Fin (5404319552844596 / 18014398509481984)"
    using toDouble_binade [of "- 54" "10808639105689191 / 36028797018963968" 5404319552844596]
      roundHalfEven_tie [of "10808639105689191 / 2" 5404319552844595]
    by (simp add: pow2_def)
  then show "js_add (toDouble (1 / 10)) (toDouble (1 / 5))
             = Fin (5404319552844596 / 18014398509481984)"
    by (simp add: a b)
  then show "js_add (toDouble (1 / 10)) (toDouble (1 / 5)) \<noteq> toDouble (3 / 10)"
    by (simp add: lit_03)
qed

lemma toDouble_70: "toDouble (100 * (3152519739159347 / 4503599627370496)) = Fin 70"
  using toDouble_binade [of "- 46" "78812993478983675 / 1125899906842624" 4925812092436480]
  by (simp add: pow2_def roundHalfEven_near)

lemma toDouble_30: "toDouble (100 * (5404319552844595 / 18014398509481984)) = Fin 30"
  using toDouble_binade [of "- 48" "135107988821114875 / 4503599627370496" 8444249301319680]
  by (simp add: pow2_def roundHalfEven_near)

lemma toDouble_numeral [simp]: "toDouble 100 = Fin 100" "toDouble 70 = Fin 70" 
  "toDouble 30 = Fin 30" "toDouble 50 = Fin 50" "toDouble 3 = Fin 3" "toDouble 20 = Fin 20"
  using toDouble_of_int [of 100] toDouble_of_int [of 70] toDouble_of_int [of 30]
    toDouble_of_int [of 50] toDouble_of_int [of 3] toDouble_of_int [of 20] by simp_all

section \<open>Properties of the callbacks\<close>

subsection \<open>The smoothing step\<close>

lemma smoothedVolume_processVolume:
  "smoothedVolume (processVolume st v) = ema (smoothedVolume st) v"
  by (simp add: processVolume_def ema_def Let_def updateMouthState_def)

lemma threshold_processVolume: "threshold (processVolume st v) = threshold st"
  by (simp add: processVolume_def Let_def updateMouthState_def)

lemma isTalking_processVolume:
  "isTalking (processVolume st v) = js_gt (ema (smoothedVolume st) v) (threshold st)"
  by (auto simp add: processVolume_def ema_def Let_def updateMouthState_def)

lemma mouthUpdates_processVolume:
  "mouthUpdates (processVolume st v) =
     (if js_gt (ema (smoothedVolume st) v) (threshold st) \<noteq> isTalking st
      then mouthUpdates st @ [js_gt (ema (smoothedVolume st) v) (threshold st)]
      else mouthUpdates st)"
  by (simp add: processVolume_def ema_def Let_def updateMouthState_def)

lemma processVolume_untouched:
  "obsWebSocket (processVolume st v) = obsWebSocket st"
  "webSocketsCreated (processVolume st v) = webSocketsCreated st"
  "initAudioCalls (processVolume st v) = initAudioCalls st"
  "obsConnected (processVolume st v) = obsConnected st"
  "frameCallbacks (processVolume st v) = frameCallbacks st"
  by (simp_all add: processVolume_def Let_def updateMouthState_def)

lemma ema_inRange:
  assumes "inRange s" "inRange v"
  shows "inRange (ema s v)"
proof -
  obtain a where a: "s = Fin a" "0 \<le> a" "a \<le> 100"
    using assms(1) by (cases s) (simp_all add: inRange_def)
  obtain b where b: "v = Fin b" "0 \<le> b" "b \<le> 100"
    using assms(2) by (cases v) (simp_all add: inRange_def)
  let ?c7 = "3152519739159347 / 4503599627370496 :: rat"
  let ?c3 = "5404319552844595 / 18014398509481984 :: rat"
  have "\<exists>r. toDouble (a * ?c7) = Fin r \<and> 0 \<le> r \<and> r \<le> 70"
    using a toDouble_70 by (intro toDouble_between [of "0 * ?c7" _ "100 * ?c7"]) simp_all
  then obtain p where p: "toDouble (a * ?c7) = Fin p" "0 \<le> p" "p \<le> 70" by blast
  have "\<exists>r. toDouble (b * ?c3) = Fin r \<and> 0 \<le> r \<and> r \<le> 30"
    using b toDouble_30 by (intro toDouble_between [of "0 * ?c3" _ "100 * ?c3"]) simp_all
  then obtain q where q: "toDouble (b * ?c3) = Fin q" "0 \<le> q" "q \<le> 30" by blast
  have "\<exists>r. toDouble (p + q) = Fin r \<and> 0 \<le> r \<and> r \<le> 100"
    using p q by (intro toDouble_between [of 0 _ 100]) simp_all
  then show ?thesis
    using a b p q by (auto simp: ema_def lit_07 lit_03 inRange_def)
qed

lemma feed_inRange:
  "inRange (smoothedVolume st) \<Longrightarrow> \<forall>v \<in> set vs. inRange v \<Longrightarrow> inRange (smoothedVolume (feed st vs))"
  by (induction vs arbitrary: st) (simp_all add: smoothedVolume_processVolume ema_inRange)

lemma ema_mono_sample: "js_le v1 v2 \<Longrightarrow> \<not> js_lt (ema s v2) (ema s v1)"
  unfolding ema_def lit_07 lit_03 by (intro js_add_mono_right js_mul_mono) simp_all

lemma ema_mono_state: "js_le s1 s2 \<Longrightarrow> \<not> js_lt (ema s2 v) (ema s1 v)"
  unfolding ema_def lit_07 lit_03 by (intro js_add_mono_left js_mul_mono) simp_all

lemma ema_le_inRange:
  assumes "inRange s1" "inRange s2" "inRange v1" "inRange v2" "js_le s1 s2" "js_le v1 v2"
  shows "js_le (ema s1 v1) (ema s2 v2)"
proof -
  have "inRange (ema s1 v1)" "inRange (ema s1 v2)" "inRange (ema s2 v2)"
    using assms by (simp_all add: ema_inRange)
  moreover have "\<not> js_lt (ema s1 v2) (ema s1 v1)" "\<not> js_lt (ema s2 v2) (ema s1 v2)"
    using assms by (simp_all add: ema_mono_sample ema_mono_state)
  ultimately show ?thesis
    by (cases "ema s1 v1"; cases "ema s1 v2"; cases "ema s2 v2") (simp_all add: inRange_def)
qed

lemma ema_accuracy:
  assumes "0 \<le> s" "s \<le> 100" "0 \<le> v" "v \<le> 100"
  shows "\<exists>r. ema (Fin s) (Fin v) = Fin r
           \<and> \<bar>r - (7 / 10 * s + 3 / 10 * v)\<bar> \<le> 1 / 35184372088832"
proof -
  let ?c7 = "3152519739159347 / 4503599627370496 :: rat"
  let ?c3 = "5404319552844595 / 18014398509481984 :: rat"
  have "\<exists>r. toDouble (s * ?c7) = Fin r \<and> \<bar>r - s * ?c7\<bar> \<le> 1 / 140737488355328"
    using assms by (intro toDouble_error) linarith+
  then obtain p where p: "toDouble (s * ?c7) = Fin p" "\<bar>p - s * ?c7\<bar> \<le> 1 / 140737488355328"
    by blast
  have "\<exists>r. toDouble (v * ?c3) = Fin r \<and> \<bar>r - v * ?c3\<bar> \<le> 1 / 140737488355328"
    using assms by (intro toDouble_error) linarith+
  then obtain q where q: "toDouble (v * ?c3) = Fin q" "\<bar>q - v * ?c3\<bar> \<le> 1 / 140737488355328"
    by blast
  have "0 \<le> s * ?c7" "0 \<le> v * ?c3" using assms by simp_all
  then have "0 \<le> p" "0 \<le> q"
    using toDouble_mono [of 0 "s * ?c7"] toDouble_mono [of 0 "v * ?c3"] p(1) q(1) by simp_all
  then have "0 \<le> p + q" by simp
  moreover have "p + q < 128" using p(2) q(2) assms by linarith
  ultimately  have "\<exists>r. toDouble (p + q) = Fin r \<and> \<bar>r - (p + q)\<bar> \<le> 1 / 140737488355328"
    by (intro toDouble_error)
  then obtain r where r: "toDouble (p + q) = Fin r" "\<bar>r - (p + q)\<bar> \<le> 1 / 140737488355328"
    by blast
  have "\<bar>r - (7 / 10 * s + 3 / 10 * v)\<bar> \<le> 1 / 35184372088832"
    using p(2) q(2) r(2) assms by linarith
  then show ?thesis using p q r by (simp add: ema_def lit_07 lit_03)
qed

lemma ema_near_interval:
  assumes "0 \<le> s" "s \<le> 100" "0 \<le> x" "x \<le> 100"
  shows "\<exists>r. ema (Fin s) (Fin x) = Fin r
           \<and> min s x - 1 / 2 ^ 45 \<le> r \<and> r \<le> max s x + 1 / 2 ^ 45"
proof -
  obtain r where r: "ema (Fin s) (Fin x) = Fin r"
    "\<bar>r - (7 / 10 * s + 3 / 10 * x)\<bar> \<le> 1 / 35184372088832"
    using ema_accuracy [OF assms] by blast
  have "min s x \<le> 7 / 10 * s + 3 / 10 * x" "7 / 10 * s + 3 / 10 * x \<le> max s x"
    by (simp_all add: min_def max_def)
  then have "min s x - 1 / 35184372088832 \<le> r" "r \<le> max s x + 1 / 35184372088832"
    using r(2) by linarith+
  then show ?thesis using r(1) by simp
qed

lemma sameSide_quiet:
  "sameSide st vs \<Longrightarrow>
   mouthUpdates (feed st vs) = mouthUpdates st \<and> isTalking (feed st vs) = isTalking st"
proof (induction vs arbitrary: st)
  case Nil
  then show ?case by simp
next
  case (Cons v vs)
  then have side: "js_gt (ema (smoothedVolume st) v) (threshold st) = isTalking st"
    and rest: "sameSide (processVolume st v) vs"
    by (simp_all add: smoothedVolume_processVolume)
  have "mouthUpdates (processVolume st v) = mouthUpdates st"
    "isTalking (processVolume st v) = isTalking st"
    using side by (simp_all add: mouthUpdates_processVolume isTalking_processVolume)
  then show ?case using Cons.IH [OF rest] by simp
qed

subsection \<open>The clamp of the remote sample\<close>

lemma clamp_Math: "Math_min (Fin 100) (Math_max (Fin 0) y) = clamp y (Fin 0) (Fin 100)"
  by (cases y) (auto simp: Math_min_def Math_max_def clamp_def)

lemma clamp_above_one:
  assumes "js_lt (Fin 1) x"
  shows "clamp (js_mul x (Fin 100)) (Fin 0) (Fin 100) = Fin 100"
proof (cases x)
  case (Fin q)
  then have "100 \<le> q * 100" using assms by simp
  then have "js_le (Fin 100) (toDouble (q * 100))"
    using toDouble_mono [of 100 "q * 100"] by simp
  then show ?thesis using Fin by (cases "toDouble (q * 100)") (auto simp: clamp_def)
qed (use assms in \<open>simp_all add: clamp_def signedInf_def\<close>)

lemma clamp_inRange:
  assumes "js_le (Fin 0) x"
  shows "inRange (clamp (js_mul x (Fin 100)) (Fin 0) (Fin 100))"
proof -
  have "js_mul x (Fin 100) \<noteq> NaN" using assms by (cases x) (simp_all add: signedInf_def)
  then show ?thesis
    by (cases "js_mul x (Fin 100)") (auto simp: clamp_def inRange_def)
qed

subsection \<open>Sending\<close>

lemma obsSend_open:
  "obsWebSocket st = Some ws \<Longrightarrow> readyState ws = OPEN \<Longrightarrow>
   obsSend st data = Inr (st\<lparr>obsWebSocket := Some (ws\<lparr>sent := sent ws @ [data]\<rparr>)\<rparr>)"
  by (simp add: obsSend_def ws_send_def)

lemma obsSend_not_open:
  "obsWebSocket st = None \<or> (obsWebSocket st = Some ws \<and> readyState ws \<noteq> OPEN) \<Longrightarrow>
   obsSend st data = Inr st"
  by (auto simp: obsSend_def)

lemma obsSend_no_throw: "obsSend st data \<noteq> Inl e"
  by (simp add: obsSend_def ws_send_def split: option.splits)

lemma obsSend_cases:
  "obsSend st data = Inr st \<and> socketState st \<noteq> Some OPEN
   \<or> (\<exists>ws. obsWebSocket st = Some ws \<and> readyState ws = OPEN
        \<and> obsSend st data = Inr (st\<lparr>obsWebSocket := Some (ws\<lparr>sent := sent ws @ [data]\<rparr>)\<rparr>))"
  by (cases "obsWebSocket st") (auto simp: obsSend_def ws_send_def socketState_def)

lemma obsSend_untouched:
  assumes "obsSend st data = Inr st'"
  shows "webSocketsCreated st' = webSocketsCreated st"
    and "initAudioCalls st' = initAudioCalls st"
    and "obsConnected st' = obsConnected st"
    and "pollTimers st' = pollTimers st"
    and "socketState st' = socketState st"
    and "socketState st \<noteq> Some OPEN \<Longrightarrow> st' = st"
  using assms obsSend_cases [of st data] by (auto simp: socketState_def)

lemma pollAudio_untouched:
  assumes "pollAudio now st = Inr st'"
  shows "webSocketsCreated st' = webSocketsCreated st"
    and "initAudioCalls st' = initAudioCalls st"
    and "socketState st' = socketState st"
    and "socketState st \<noteq> Some OPEN \<Longrightarrow> socketSent st' = socketSent st"
  using assms obsSend_cases [of st "\<lparr>out_op = 6,
      out_d = request_d ''GetInputVolume'' (vol now) (obsAudioSource st)\<rparr>"]
  by (auto simp: pollAudio_def socketState_def socketSent_def split: if_splits sum.splits)

lemma pollAudio_no_throw: "pollAudio now st \<noteq> Inl e"
  by (simp add: pollAudio_def obsSend_no_throw split: sum.splits)

subsection \<open>The socket over a session\<close>

lemmas callback_defs =
  onopen_def onmessage_def onerror_def onclose_def timeoutCallback_def initAudio_def
  initAudio_granted_def initAudio_denied_def startAudioLoop_def processAudio_def
  startOBSAudioLoop_def obsAuthenticate_def handleOBSMessage_def handleOBSVolumeResponse_def
  JSON_parse_def uncaught_def setReadyState_def ws_close_def

lemma fire_webSocketsCreated: "webSocketsCreated (fire now ev st) = webSocketsCreated st"
proof (cases ev)
  case WsOpen
  let ?st1 = "setReadyState OPEN st"
  have "webSocketsCreated (uncaught ?st1 (onopen now ?st1)) = webSocketsCreated ?st1"
    by (auto simp: uncaught_def onopen_def Let_def obsAuthenticate_def startOBSAudioLoop_def
        dest: obsSend_untouched(1) pollAudio_untouched(1) split: sum.splits)
  then show ?thesis using WsOpen by (simp add: setReadyState_def Let_def)
next
  case (WsMessage data)
  then show ?thesis
    by (auto simp: uncaught_def onmessage_def JSON_parse_def handleOBSMessage_def
        startOBSAudioLoop_def handleOBSVolumeResponse_def processVolume_untouched
        dest: obsSend_untouched(1) pollAudio_untouched(1)
        split: sum.splits ws_data.splits option.splits if_splits)
next
  case PollTimer
  then show ?thesis
    by (auto simp: uncaught_def Let_def dest: pollAudio_untouched(1) split: sum.splits)
qed (simp_all add: callback_defs processVolume_untouched split: option.splits)

lemma run_webSocketsCreated: "webSocketsCreated (run st evs) = webSocketsCreated st"
  by (induction st evs rule: run.induct) (simp_all add: fire_webSocketsCreated)

lemma webSocketsCreated_constructor: "webSocketsCreated (constructor h params) \<le> 1"
  by (simp add: constructor_def checkOBSMode_def parseURLParams_def fields_def
      initOBSWebSocket_def initAudio_def Let_def split: option.splits sum.splits)

lemma smoothedVolume_constructor: "smoothedVolume (constructor h params) = Fin 0"
  by (simp add: constructor_def checkOBSMode_def parseURLParams_def fields_def
      initOBSWebSocket_def initAudio_def Let_def split: option.splits sum.splits)

lemma fire_remoteDead:
  assumes "remoteDead st" "enabled st ev"
  shows "remoteDead (fire now ev st) \<and> socketSent (fire now ev st) = socketSent st"
proof (cases ev)
  case PollTimer
  let ?st1 = "st\<lparr>pollTimers := pollTimers st - 1\<rparr>"
  have d: "socketState ?st1 = socketState st" "socketSent ?st1 = socketSent st"
    by (simp_all add: socketState_def socketSent_def)
  obtain st' where st': "pollAudio now ?st1 = Inr st'"
    using pollAudio_no_throw [of now ?st1] by (cases "pollAudio now ?st1") auto
  have "socketState st' = socketState st" "socketSent st' = socketSent st"
    using pollAudio_untouched(3,4) [OF st'] assms(1) d by (auto simp: remoteDead_def)
  then show ?thesis using PollTimer st' assms(1) by (simp add: Let_def uncaught_def remoteDead_def)
qed (use assms in \<open>auto simp: remoteDead_def socketState_def socketSent_def callback_defs
      processVolume_untouched split: option.splits\<close>)

lemma run_remoteDead:
  "remoteDead st \<Longrightarrow> admissible st evs \<Longrightarrow>
   remoteDead (run st evs) \<and> socketSent (run st evs) = socketSent st"
proof (induction st evs rule: run.induct)
  case (1 st)
  then show ?case by simp
next
  case (2 st now ev evs)
  then show ?case using fire_remoteDead [of st ev now] by simp
qed

subsection \<open>One source at a time\<close>

lemma pollAudio_exclusive:
  assumes "pollAudio now st = Inr st'"
  shows "micRequests st' = micRequests st" "frameCallbacks st' = frameCallbacks st"
  using assms obsSend_cases [of st "\<lparr>out_op = 6,
      out_d = request_d ''GetInputVolume'' (vol now) (obsAudioSource st)\<rparr>"]
  by (auto simp: pollAudio_def split: if_splits sum.splits)

lemma obsSend_exclusive:
  assumes "obsSend st data = Inr st'"
  shows "micRequests st' = micRequests st" "frameCallbacks st' = frameCallbacks st"
  using assms obsSend_cases [of st data] by auto

lemma exclusive_cong:
  assumes "exclusive st" "micRequests st' = micRequests st"
    "frameCallbacks st' = frameCallbacks st" "initAudioCalls st' = initAudioCalls st"
    "socketState st' = socketState st"
  shows "exclusive st'"
  using assms by (simp add: exclusive_def localStarted_def remoteLive_def)

lemma processVolume_exclusive:
  "micRequests (processVolume st v) = micRequests st"
  "socketState (processVolume st v) = socketState st"
  by (simp_all add: processVolume_def Let_def updateMouthState_def socketState_def)

lemma handleOBSMessage_exclusive:
  assumes "handleOBSMessage now st m = Inr st'"
  shows "micRequests st' = micRequests st \<and> frameCallbacks st' = frameCallbacks st
         \<and> initAudioCalls st' = initAudioCalls st \<and> socketState st' = socketState st"
proof -
  consider "msg_op m = 0" | "msg_op m \<noteq> 0" "msg_op m = 2"
    | "msg_op m \<noteq> 0" "msg_op m \<noteq> 2" "msg_op m = 7" | "msg_op m \<noteq> 0" "msg_op m \<noteq> 2" "msg_op m \<noteq> 7"
    by blast
  then show ?thesis
  proof cases
    case 1
    then have "obsSend st \<lparr>out_op = 1, out_d = identify_d 1 None\<rparr> = Inr st'"
      using assms by (simp add: handleOBSMessage_def)
    then show ?thesis
      using obsSend_untouched(2,5) obsSend_exclusive by blast
  next
    case 2
    then have "pollAudio now st = Inr st'"
      using assms by (simp add: handleOBSMessage_def startOBSAudioLoop_def)
    then show ?thesis
      using pollAudio_untouched(2,3) pollAudio_exclusive by blast
  next
    case 3
    then have "st' = st \<or> (\<exists>v. st' = processVolume st v)"
      using assms
      by (auto simp: handleOBSMessage_def handleOBSVolumeResponse_def
          split: option.splits if_splits)
    then show ?thesis
      by (auto simp: processVolume_untouched processVolume_exclusive)
  next
    case 4
    then show ?thesis using assms by (simp add: handleOBSMessage_def)
  qed
qed

lemma onopen_exclusive:
  assumes "onopen now st = Inr st'"
  shows "micRequests st' = micRequests st \<and> frameCallbacks st' = frameCallbacks st
         \<and> initAudioCalls st' = initAudioCalls st \<and> socketState st' = socketState st"
proof -
  let ?st1 = "st\<lparr>obsConnected := True, micPromptHidden := True\<rparr>"
  have s: "socketState ?st1 = socketState st" by (simp add: socketState_def)
  show ?thesis
  proof (cases "obsPassword st = []")
    case True
    then have "pollAudio now ?st1 = Inr st'"
      using assms by (simp add: onopen_def startOBSAudioLoop_def)
    then show ?thesis
      using pollAudio_untouched(2,3) [of now ?st1 st'] pollAudio_exclusive [of now ?st1 st'] s
      by simp
  next
    case False
    then have "obsSend ?st1 \<lparr>out_op = 1, out_d = identify_d 1 (Some (obsPassword ?st1))\<rparr>
               = Inr st'"
      using assms by (simp add: onopen_def obsAuthenticate_def)
    then show ?thesis
      using obsSend_untouched(2,5) [of ?st1 _ st'] obsSend_exclusive [of ?st1 _ st'] s
      by simp
  qed
qed

lemma exclusive_WsOpen:
  assumes "exclusive st" "enabled st WsOpen"
  shows "exclusive (fire now WsOpen st)"
proof -
  let ?st1 = "setReadyState OPEN st"
  from assms have calls: "initAudioCalls st = 0" "micRequests st = 0" "frameCallbacks st = 0"
    by (auto simp: exclusive_def remoteLive_def localStarted_def)
  then have e1: "initAudioCalls ?st1 = 0" "micRequests ?st1 = 0" "frameCallbacks ?st1 = 0"
    by (simp_all add: setReadyState_def)
  have "initAudioCalls st' = 0 \<and> micRequests st' = 0 \<and> frameCallbacks st' = 0"
    if "onopen now ?st1 = Inr st'" for st'
    using onopen_exclusive [OF that] e1 by simp
  then have "initAudioCalls (fire now WsOpen st) = 0 \<and> micRequests (fire now WsOpen st) = 0
             \<and> frameCallbacks (fire now WsOpen st) = 0"
    using e1 by (cases "onopen now ?st1") (simp_all add: Let_def uncaught_def)
  then show ?thesis by (simp add: exclusive_def localStarted_def)
qed

lemma exclusive_WsMessage:
  assumes "exclusive st"
  shows "exclusive (fire now (WsMessage data) st)"
proof (cases "onmessage now st data")
  case (Inl e)
  then show ?thesis using assms by (simp add: uncaught_def)
next
  case (Inr st')
  then have "\<exists>m. handleOBSMessage now st m = Inr st'"
    by (cases data) (auto simp: onmessage_def JSON_parse_def)
  then obtain m where m: "handleOBSMessage now st m = Inr st'" by blast
  have h: "micRequests st' = micRequests st" "frameCallbacks st' = frameCallbacks st"
    "initAudioCalls st' = initAudioCalls st" "socketState st' = socketState st"
    using handleOBSMessage_exclusive [OF m] by blast+
  have "exclusive st'" by (rule exclusive_cong [OF assms h])
  moreover have "fire now (WsMessage data) st = st'" using Inr by (simp add: uncaught_def)
  ultimately show ?thesis by (simp only:)
qed

lemma exclusive_WsError:
  assumes "exclusive st"
  shows "exclusive (fire now WsError st)"
proof -
  have "socketState (fire now WsError st) \<noteq> Some CONNECTING"
    "socketState (fire now WsError st) \<noteq> Some OPEN"
    "0 < initAudioCalls (fire now WsError st)"
    by (cases "obsWebSocket st";
        simp add: socketState_def onclose_def onerror_def initAudio_def setReadyState_def)+
  then show ?thesis by (simp add: exclusive_def remoteLive_def)
qed

lemma exclusive_WsClose:
  assumes "exclusive st"
  shows "exclusive (fire now WsClose st)"
proof -
  have "socketState (fire now WsClose st) \<noteq> Some CONNECTING"
    "socketState (fire now WsClose st) \<noteq> Some OPEN"
    "micRequests (fire now WsClose st) = micRequests st"
    "frameCallbacks (fire now WsClose st) = frameCallbacks st"
    "initAudioCalls (fire now WsClose st) = initAudioCalls st"
    by (cases "obsWebSocket st"; simp add: socketState_def onclose_def setReadyState_def)+
  then show ?thesis using assms by (simp add: exclusive_def remoteLive_def localStarted_def)
qed

lemma exclusive_Deadline:
  assumes "exclusive st"
  shows "exclusive (fire now Deadline st)"
proof (cases "obsConnected st")
  case True
  have "exclusive (st\<lparr>deadlineTimer := False\<rparr>)"
    by (rule exclusive_cong [OF assms]) (simp_all add: socketState_def)
  moreover have "fire now Deadline st = st\<lparr>deadlineTimer := False\<rparr>"
    using True by (simp add: timeoutCallback_def)
  ultimately show ?thesis by (simp only:)
next
  case False
  show ?thesis
  proof (cases "obsWebSocket st")
    case None
    then have "fire now Deadline st = initAudio (st\<lparr>deadlineTimer := False\<rparr>)"
      using False by (simp add: timeoutCallback_def)
    then show ?thesis
      by (simp add: exclusive_def remoteLive_def socketState_def initAudio_def None)
  next
    case (Some ws)
    then have "fire now Deadline st
        = initAudio (st\<lparr>deadlineTimer := False, obsWebSocket := Some (ws_close ws)\<rparr>)"
      using False by (simp add: timeoutCallback_def)
    moreover have "readyState (ws_close ws) \<noteq> CONNECTING" "readyState (ws_close ws) \<noteq> OPEN"
      by (simp_all add: ws_close_def)
    ultimately show ?thesis
      by (simp add: exclusive_def remoteLive_def socketState_def initAudio_def)
  qed
qed

lemma exclusive_PollTimer:
  assumes "exclusive st"
  shows "exclusive (fire now PollTimer st)"
proof -
  let ?st1 = "st\<lparr>pollTimers := pollTimers st - 1\<rparr>"
  have e1: "exclusive ?st1"
    by (rule exclusive_cong [OF assms]) (simp_all add: socketState_def)
  show ?thesis
  proof (cases "pollAudio now ?st1")
    case (Inl e)
    then show ?thesis using e1 by (simp add: Let_def uncaught_def)
  next
    case (Inr st')
    have "exclusive st'"
      by (rule exclusive_cong [OF e1 pollAudio_exclusive [OF Inr] pollAudio_untouched(2,3) [OF Inr]])
    moreover have "fire now PollTimer st = st'" using Inr by (simp add: Let_def uncaught_def)
    ultimately show ?thesis by (simp only:)
  qed
qed

lemma exclusive_frame:
  assumes "exclusive st" "0 < initAudioCalls st"
    "initAudioCalls st0 = initAudioCalls st" "socketState st0 = socketState st"
  shows "exclusive (processAudio d st0)"
proof -
  have "initAudioCalls (processAudio d st0) = initAudioCalls st"
    "socketState (processAudio d st0) = socketState st"
    using assms(3,4)
    by (simp_all add: processAudio_def Let_def processVolume_untouched processVolume_exclusive
        socketState_def)
  then show ?thesis using assms(1,2) by (simp add: exclusive_def remoteLive_def)
qed

lemma fire_exclusive:
  assumes "exclusive st" "enabled st ev" "ev \<noteq> EnableMicClick"
  shows "exclusive (fire now ev st)"
proof (cases ev)
  case WsOpen
  then show ?thesis using assms exclusive_WsOpen by simp
next
  case (WsMessage data)
  then show ?thesis using assms exclusive_WsMessage by simp
next
  case WsError
  then show ?thesis using assms exclusive_WsError by simp
next
  case WsClose
  then show ?thesis using assms exclusive_WsClose by simp
next
  case Deadline
  then show ?thesis using assms exclusive_Deadline by simp
next
  case PollTimer
  then show ?thesis using assms exclusive_PollTimer by simp
next
  case (MicGranted d)
  then have "0 < initAudioCalls st"
    using assms(1,2) by (simp add: exclusive_def localStarted_def)
  then show ?thesis
    using MicGranted assms(1)
      exclusive_frame [of st "st\<lparr>micRequests := micRequests st - 1, micPromptHidden := True\<rparr>" d]
    by (simp add: initAudio_granted_def startAudioLoop_def socketState_def)
next
  case MicDenied
  then have "0 < initAudioCalls st"
    using assms(1,2) by (simp add: exclusive_def localStarted_def)
  then show ?thesis
    using MicDenied assms(1)
    by (simp add: exclusive_def remoteLive_def socketState_def initAudio_denied_def)
next
  case (AnimationFrame d)
  then have "0 < initAudioCalls st"
    using assms(1,2) by (simp add: exclusive_def localStarted_def)
  then show ?thesis
    using AnimationFrame assms(1)
      exclusive_frame [of st "st\<lparr>frameCallbacks := frameCallbacks st - 1\<rparr>" d]
    by (simp add: socketState_def)
next
  case (ThresholdInput v)
  then show ?thesis
    using assms(1) by (simp add: exclusive_def localStarted_def remoteLive_def socketState_def)
next
  case EnableMicClick
  then show ?thesis using assms(3) by simp
qed

lemma exclusive_constructor: "exclusive (constructor h params)"
  by (simp add: exclusive_def localStarted_def remoteLive_def socketState_def constructor_def
      checkOBSMode_def parseURLParams_def fields_def initOBSWebSocket_def initAudio_def
      new_WebSocket_def Let_def split: option.splits)

lemma run_exclusive:
  "exclusive st \<Longrightarrow> admissible st evs \<Longrightarrow> EnableMicClick \<notin> snd ` set evs \<Longrightarrow>
   exclusive (run st evs)"
proof (induction st evs rule: run.induct)
  case (1 st)
  then show ?case by simp
next
  case (2 st now ev evs)
  then show ?case using fire_exclusive [of st ev now] by auto
qed

text \<open>In a session without a click on the enable-microphone button, the remote and the local source never feed samples in the same state: a socket message and a microphone callback are never enabled together.\<close>

lemma sources_never_overlap:
  assumes "admissible (constructor h params) evs" "EnableMicClick \<notin> snd ` set evs"
  shows "\<not> (enabled (run (constructor h params) evs) (WsMessage data)
            \<and> (enabled (run (constructor h params) evs) (AnimationFrame d)
               \<or> enabled (run (constructor h params) evs) (MicGranted d)))"
  using run_exclusive [OF exclusive_constructor assms]
  by (auto simp: exclusive_def localStarted_def remoteLive_def)

subsection \<open>Values met in the sessions below\<close>

lemma ema_0_100: "ema (Fin 0) (Fin 100) = Fin 30"
  using toDouble_30 by (simp add: ema_def lit_07 lit_03)

lemma ema_0_10: "ema (Fin 0) (Fin 10) = Fin 3"
  using toDouble_binade [of "- 51" "27021597764222975 / 9007199254740992" 6755399441055744]
  by (simp add: ema_def lit_07 lit_03 pow2_def roundHalfEven_near)

lemma ema_30_30: "ema (Fin 30) (Fin 30) = Fin 30"
  using toDouble_binade [of "- 48" "47287796087390205 / 2251799813685248" 5910974510923776]
    toDouble_binade [of "- 49" "81064793292668925 / 9007199254740992" 5066549580791808]
    toDouble_of_int [of 30]
  by (simp add: ema_def lit_07 lit_03 pow2_def roundHalfEven_near)

lemma ema_3_3: "ema (Fin 3) (Fin 3) = Fin (6755399441055743 / 2251799813685248)"
proof -
  have "toDouble (3 * (3152519739159347 / 4503599627370496))
        = Fin (1182194902184755 / 562949953421312)"
    using toDouble_binade [of "- 51" "9457559217478041 / 4503599627370496" 4728779608739020]
      roundHalfEven_tie [of "9457559217478041 / 2" 4728779608739020]
    by (simp add: pow2_def)
  moreover have "toDouble (3 * (5404319552844595 / 18014398509481984))
        = Fin (2026619832316723 / 2251799813685248)"
    using toDouble_binade [of "- 53" "16212958658533785 / 18014398509481984" 8106479329266892]
      roundHalfEven_tie [of "16212958658533785 / 2" 8106479329266892]
    by (simp add: pow2_def)
  moreover have "toDouble (1182194902184755 / 562949953421312
                           + 2026619832316723 / 2251799813685248)
        = Fin (6755399441055743 / 2251799813685248)"
    using toDouble_binade [of "- 51" "6755399441055743 / 2251799813685248" 6755399441055743]
      roundHalfEven_of_int [of 6755399441055743]
    by (simp add: pow2_def)
  ultimately show ?thesis by (simp add: ema_def lit_07 lit_03)
qed

lemma frameVolume_silence: "frameVolume [0] = Fin 0"
proof -
  have "\<lfloor>1 / 2 :: rat\<rfloor> = 0" by (intro floor_unique) simp_all
  then show ?thesis by (simp add: frameVolume_def)
qed

lemma processVolume_silence:
  "smoothedVolume st = Fin 0 \<Longrightarrow> threshold st = Fin 20 \<Longrightarrow> \<not> isTalking st \<Longrightarrow>
   processVolume st (Fin 0)
     = (if volumeBar st then st\<lparr>volumeBarWidth := Some (Fin 0)\<rparr> else st)"
  by (simp add: processVolume_def Let_def lit_07 lit_03 js_gt_def)

lemmas session_defs =
  constructor_def constructor_micOnly_def checkOBSMode_def checkOBSMode_micOnly_def
  parseURLParams_def fields_def initOBSWebSocket_def new_WebSocket_def page_def
  hello_def identified_def volumeResponse_def socketState_def socketSent_def
  callback_defs pollAudio_def obsSend_def ws_send_def

lemma micSession_fields:
  "smoothedVolume micSession = Fin 0" "threshold micSession = Fin 20"
  "isTalking micSession = False" "mouthUpdates micSession = []"
  by (simp_all add: micSession_def session_defs)

lemma obsSession_fields:
  "socketState obsSession = Some CONNECTING" "obsConnected obsSession = False"
  "initAudioCalls obsSession = 0" "deadlineTimer obsSession = True"
  by (simp_all add: obsSession_def session_defs)

lemma obsSession_socket:
  "obsWebSocket obsSession
     = Some \<lparr>url = ''ws://127.0.0.1:4455'', readyState = CONNECTING, sent = []\<rparr>"
  by (simp add: obsSession_def session_defs)

section \<open>The claims\<close>

text \<open>
  C1: at most one source feeds samples at a time, and a transport error while polling is
  followed by exactly one fallback to the microphone. The first part holds in every session
  without a click on the enable-microphone button (\<open>sources_never_overlap\<close>). The
  code does not keep to the second part. In the session below the socket opens, the
  handshake completes and polling runs; the connection then fails one second after the
  page loaded. \<open>onerror\<close> calls \<open>initAudio\<close>, \<open>onclose\<close> clears
  \<open>obsConnected\<close>, and when the 3000 ms timeout fires it finds \<open>obsConnected\<close>
  false and calls \<open>initAudio\<close> a second time: once both microphone requests are
  granted, two \<open>processAudio\<close> loops run. The same happens when the connection fails
  before it ever opens.
\<close>

theorem error_then_deadline_starts_capture_twice:
  "admissible obsSession
     [(10, WsOpen), (11, WsMessage hello), (12, WsMessage identified), (26, PollTimer),
      (1000, WsError), (3000, Deadline), (3100, MicGranted [0]), (3101, MicGranted [0])]
   \<and> initAudioCalls (run obsSession
     [(10, WsOpen), (11, WsMessage hello), (12, WsMessage identified), (26, PollTimer),
      (1000, WsError)]) = 1
   \<and> initAudioCalls (run obsSession
     [(10, WsOpen), (11, WsMessage hello), (12, WsMessage identified), (26, PollTimer),
      (1000, WsError), (3000, Deadline)]) = 2
   \<and> frameCallbacks (run obsSession
     [(10, WsOpen), (11, WsMessage hello), (12, WsMessage identified), (26, PollTimer),
      (1000, WsError), (3000, Deadline), (3100, MicGranted [0]), (3101, MicGranted [0])]) = 2
   \<and> admissible obsSession [(5, WsError), (3000, Deadline)]
   \<and> initAudioCalls (run obsSession [(5, WsError), (3000, Deadline)]) = 2"
  by (simp add: obsSession_def session_defs frameVolume_silence processVolume_silence)

text \<open>
  C2, as amended: the fallback follows the state of the connection, not the arrival of
  "identified". A transport error calls \<open>initAudio\<close>, with the socket closed and
  \<open>obsConnected\<close> false afterwards. The 3000 ms timeout, when it finds
  \<open>obsConnected\<close> false, closes the socket and calls \<open>initAudio\<close>; when it finds
  \<open>obsConnected\<close> true it does nothing. Once the socket is closing or closed, no
  admissible continuation of the session sends anything on it or reopens it, and no
  callback ever constructs another socket: a session has at most one.
\<close>

theorem fallback_follows_connection:
  "(enabled st WsError \<longrightarrow>
      initAudioCalls (fire now WsError st) = initAudioCalls st + 1
      \<and> socketState (fire now WsError st) = Some CLOSED
      \<and> \<not> obsConnected (fire now WsError st))
   \<and> (\<not> obsConnected st \<longrightarrow>
      initAudioCalls (fire now Deadline st) = initAudioCalls st + 1
      \<and> socketState (fire now Deadline st) \<noteq> Some CONNECTING
      \<and> socketState (fire now Deadline st) \<noteq> Some OPEN)
   \<and> (obsConnected st \<longrightarrow> fire now Deadline st = st\<lparr>deadlineTimer := False\<rparr>)
   \<and> (remoteDead st \<and> admissible st evs \<longrightarrow>
      remoteDead (run st evs) \<and> socketSent (run st evs) = socketSent st)
   \<and> webSocketsCreated (run st evs) = webSocketsCreated st
   \<and> webSocketsCreated (run (constructor h params) evs) \<le> 1"
proof -
  have "enabled st WsError \<Longrightarrow>
      initAudioCalls (fire now WsError st) = initAudioCalls st + 1
      \<and> socketState (fire now WsError st) = Some CLOSED
      \<and> \<not> obsConnected (fire now WsError st)"
    by (auto simp: socketState_def callback_defs)
  moreover have "\<not> obsConnected st \<Longrightarrow>
      initAudioCalls (fire now Deadline st) = initAudioCalls st + 1
      \<and> socketState (fire now Deadline st) \<noteq> Some CONNECTING
      \<and> socketState (fire now Deadline st) \<noteq> Some OPEN"
    by (auto simp: socketState_def callback_defs split: option.splits)
  moreover have "obsConnected st \<Longrightarrow> fire now Deadline st = st\<lparr>deadlineTimer := False\<rparr>"
    by (simp add: timeoutCallback_def)
  ultimately show ?thesis
    using run_remoteDead [of st evs] webSocketsCreated_constructor [of h params]
    by (simp add: run_webSocketsCreated)
qed

text \<open>
  An instance: a connection that fails before it opens, a timeout that fires before the
  connection opened, a timeout that fires on an open connection, and a failed connection
  followed by the timeout.
\<close>

theorem fallback_follows_connection_witness:
  "enabled obsSession WsError
   \<and> initAudioCalls (fire 50 WsError obsSession) = 1
   \<and> socketState (fire 50 WsError obsSession) = Some CLOSED
   \<and> \<not> obsConnected obsSession
   \<and> initAudioCalls (fire 3000 Deadline obsSession) = 1
   \<and> obsConnected (fire 10 WsOpen obsSession)
   \<and> fire 3000 Deadline (fire 10 WsOpen obsSession)
       = (fire 10 WsOpen obsSession)\<lparr>deadlineTimer := False\<rparr>
   \<and> remoteDead (fire 50 WsError obsSession)
   \<and> admissible (fire 50 WsError obsSession) [(3000, Deadline), (3100, MicDenied)]
   \<and> socketSent (run (fire 50 WsError obsSession) [(3000, Deadline), (3100, MicDenied)])
       = socketSent (fire 50 WsError obsSession)"
proof -
  have a: "enabled obsSession WsError" "\<not> obsConnected obsSession"
    by (simp_all add: obsSession_fields)
  have b: "obsConnected (fire 10 WsOpen obsSession)"
    by (simp add: obsSession_def session_defs)
  have c: "remoteDead (fire 50 WsError obsSession)"
    "admissible (fire 50 WsError obsSession) [(3000, Deadline), (3100, MicDenied)]"
    by (simp_all add: remoteDead_def obsSession_def session_defs)
  show ?thesis
    using a b c
      fallback_follows_connection [where st = obsSession and now = 50]
      fallback_follows_connection [where st = obsSession and now = 3000]
      fallback_follows_connection [where st = "fire 10 WsOpen obsSession" and now = 3000]
      fallback_follows_connection [where st = "fire 50 WsError obsSession"
        and evs = "[(3000, Deadline), (3100, MicDenied)]"]
    by (simp add: obsSession_fields)
qed

text \<open>
  With a password set, the connection opens and "hello" arrives, but "identified" never
  does. The timeout at 3000 ms finds \<open>obsConnected\<close> true: \<open>initAudio\<close> is not
  called, the socket stays open, and nothing is left pending that could call it later.
\<close>

theorem open_unidentified_connection_never_falls_back:
  "admissible passwordSession [(10, WsOpen), (11, WsMessage hello), (3000, Deadline)]
   \<and> initAudioCalls
        (run passwordSession [(10, WsOpen), (11, WsMessage hello), (3000, Deadline)]) = 0
   \<and> socketState
        (run passwordSession [(10, WsOpen), (11, WsMessage hello), (3000, Deadline)])
       = Some OPEN
   \<and> pollTimers
        (run passwordSession [(10, WsOpen), (11, WsMessage hello), (3000, Deadline)]) = 0
   \<and> deadlineTimer
        (run passwordSession [(10, WsOpen), (11, WsMessage hello), (3000, Deadline)]) = False"
  by (simp add: passwordSession_def session_defs)

text \<open>
  C3: the identify message that answers "hello" carries the version and, when a password
  is configured, the authentication string. The code does not do the second: with the
  password \<open>secret\<close>, \<open>obsAuthenticate\<close> sends an identify message with the
  authentication string when the socket opens, and the answer to "hello" that follows is
  an identify message with the version alone.
\<close>

theorem hello_reply_carries_no_token:
  "obsPassword passwordSession = ''secret''
   \<and> socketSent (run passwordSession [(10, WsOpen)])
       = [\<lparr>out_op = 1, out_d = identify_d 1 (Some ''secret'')\<rparr>]
   \<and> socketSent (run passwordSession [(10, WsOpen), (11, WsMessage hello)])
       = [\<lparr>out_op = 1, out_d = identify_d 1 (Some ''secret'')\<rparr>,
          \<lparr>out_op = 1, out_d = identify_d 1 None\<rparr>]"
  by (simp add: passwordSession_def session_defs)

text \<open>
  C4: a response with \<open>requestType\<close> \<open>GetInputVolume\<close> and a multiplier
  \<open>inputVolumeMul\<close> hands \<open>processVolume\<close> the sample
  \<open>clamp(inputVolumeMul * 100, 0, 100)\<close>; the multiplier 0.5 gives the sample 50, a
  multiplier above 1 gives 100, and a non-negative multiplier gives a sample in
  \<open>[0, 100]\<close>.
\<close>

theorem volume_response_sample:
  assumes "msg_op m = 7" and "msg_d m = Some d" and "requestType d = ''GetInputVolume''"
    and "responseData d = Some rd" and "inputVolumeMul rd = Some x"
  shows "handleOBSMessage now st m
           = Inr (processVolume st (clamp (js_mul x (Fin 100)) (Fin 0) (Fin 100)))
         \<and> (x = Fin (1 / 2) \<longrightarrow> clamp (js_mul x (Fin 100)) (Fin 0) (Fin 100) = Fin 50)
         \<and> (js_lt (Fin 1) x \<longrightarrow> clamp (js_mul x (Fin 100)) (Fin 0) (Fin 100) = Fin 100)
         \<and> (js_le (Fin 0) x \<longrightarrow> inRange (clamp (js_mul x (Fin 100)) (Fin 0) (Fin 100)))"
proof -
  have "clamp (js_mul (Fin (1 / 2)) (Fin 100)) (Fin 0) (Fin 100) = Fin 50"
    by (simp add: clamp_def)
  then show ?thesis
    using assms
    by (simp add: handleOBSMessage_def handleOBSVolumeResponse_def clamp_Math clamp_above_one
        clamp_inRange)
qed

text \<open>An instance: the multipliers 0.5 and 2.\<close>

theorem volume_response_sample_witness:
  "handleOBSMessage 40 obsSession (volumeResponse (Fin (1 / 2)))
     = Inr (processVolume obsSession (Fin 50))
   \<and> js_lt (Fin 1) (Fin 2)
   \<and> handleOBSMessage 40 obsSession (volumeResponse (Fin 2))
     = Inr (processVolume obsSession (Fin 100))"
  using volume_response_sample [where m = "volumeResponse (Fin (1 / 2))" and x = "Fin (1 / 2)"
      and rd = "\<lparr>inputVolumeMul = Some (Fin (1 / 2))\<rparr>" and now = 40 and st = obsSession
      and d = "\<lparr>requestType = ''GetInputVolume'',
                responseData = Some \<lparr>inputVolumeMul = Some (Fin (1 / 2))\<rparr>\<rparr>"]
    volume_response_sample [where m = "volumeResponse (Fin 2)" and x = "Fin 2"
      and rd = "\<lparr>inputVolumeMul = Some (Fin 2)\<rparr>" and now = 40 and st = obsSession
      and d = "\<lparr>requestType = ''GetInputVolume'',
                responseData = Some \<lparr>inputVolumeMul = Some (Fin 2)\<rparr>\<rparr>"]
  by (simp add: volumeResponse_def)

text \<open>
  C5: one update sets the smoothed volume to \<open>smoothedVolume * 0.7 + sample * 0.3\<close>, as
  the program's arithmetic evaluates that expression (each product and the sum rounded to
  a double), in \<open>processVolume\<close>, on the remote path, and on the microphone path of both
  files.
\<close>

theorem smoothing_update:
  "smoothedVolume (processVolume st v) = ema (smoothedVolume st) v
   \<and> smoothedVolume (handleOBSVolumeResponse st (Some \<lparr>inputVolumeMul = Some x\<rparr>))
       = ema (smoothedVolume st) (Math_min (Fin 100) (Math_max (Fin 0) (js_mul x (Fin 100))))
   \<and> smoothedVolume (fire now (WsMessage (Json (volumeResponse x))) st)
       = ema (smoothedVolume st) (Math_min (Fin 100) (Math_max (Fin 0) (js_mul x (Fin 100))))
   \<and> smoothedVolume (processAudio dataArray st)
       = ema (smoothedVolume st) (frameVolume dataArray)
   \<and> smoothedVolume (fire now (AnimationFrame dataArray) st)
       = ema (smoothedVolume st) (frameVolume dataArray)
   \<and> smoothedVolume (fire now (MicGranted dataArray) st)
       = ema (smoothedVolume st) (frameVolume dataArray)
   \<and> smoothedVolume (processAudio_micOnly dataArray st)
       = ema (smoothedVolume st) (frameVolume dataArray)
   \<and> ema s v = js_add (js_mul s (toDouble (7 / 10))) (js_mul v (toDouble (3 / 10)))"
proof -
  have remote: "smoothedVolume (handleOBSVolumeResponse st (Some \<lparr>inputVolumeMul = Some x\<rparr>))
      = ema (smoothedVolume st) (Math_min (Fin 100) (Math_max (Fin 0) (js_mul x (Fin 100))))"
    by (simp add: handleOBSVolumeResponse_def smoothedVolume_processVolume)
  have "fire now (WsMessage (Json (volumeResponse x))) st
      = handleOBSVolumeResponse st (Some \<lparr>inputVolumeMul = Some x\<rparr>)"
    by (simp add: onmessage_def JSON_parse_def handleOBSMessage_def volumeResponse_def
        uncaught_def)
  moreover have local: "smoothedVolume (processAudio d t) = ema (smoothedVolume t) (frameVolume d)"
    for d t
    by (simp add: processAudio_def Let_def smoothedVolume_processVolume)
  moreover have "smoothedVolume (processAudio_micOnly dataArray st)
      = ema (smoothedVolume st) (frameVolume dataArray)"
    by (simp add: processAudio_micOnly_def Let_def updateMouthState_def ema_def)
  ultimately show ?thesis
    using remote
    by (simp add: smoothedVolume_processVolume initAudio_granted_def startAudioLoop_def ema_def)
qed

text \<open>
  C6: \<open>updateMouthState\<close> runs on a sample exactly when \<open>smoothedVolume > threshold\<close>
  differs from the talk state, and the talk state then becomes that comparison; a smoothed
  volume equal to the threshold leaves the avatar not talking; samples that keep the
  smoothed volume on the side of the threshold that the talk state names cause no further
  run of \<open>updateMouthState\<close>.
\<close>

theorem transition_edge_triggered:
  "mouthUpdates (processVolume st v) =
     (if js_gt (smoothedVolume (processVolume st v)) (threshold st) \<noteq> isTalking st
      then mouthUpdates st @ [js_gt (smoothedVolume (processVolume st v)) (threshold st)]
      else mouthUpdates st)
   \<and> isTalking (processVolume st v)
       = js_gt (smoothedVolume (processVolume st v)) (threshold st)
   \<and> (smoothedVolume (processVolume st v) = threshold st \<longrightarrow>
        \<not> isTalking (processVolume st v)
        \<and> (mouthUpdates (processVolume st v) = mouthUpdates st
           \<or> mouthUpdates (processVolume st v) = mouthUpdates st @ [False]))
   \<and> (sameSide st vs \<longrightarrow>
        mouthUpdates (feed st vs) = mouthUpdates st \<and> isTalking (feed st vs) = isTalking st)"
proof -
  have "\<not> js_gt x x" for x by (cases x) (simp_all add: js_gt_def)
  then show ?thesis
    by (simp add: smoothedVolume_processVolume mouthUpdates_processVolume
        isTalking_processVolume sameSide_quiet)
qed

text \<open>
  An instance: with threshold 30 the sample 100 brings the smoothed volume from 0 to
  exactly 30 and the avatar stays silent; with threshold 20 the same sample opens the
  mouth, and two further samples of 30 keep the smoothed volume at 30 without another
  event.
\<close>

theorem transition_edge_triggered_witness:
  "smoothedVolume (processVolume (micSession\<lparr>threshold := Fin 30\<rparr>) (Fin 100))
     = threshold (micSession\<lparr>threshold := Fin 30\<rparr>)
   \<and> \<not> isTalking (processVolume (micSession\<lparr>threshold := Fin 30\<rparr>) (Fin 100))
   \<and> mouthUpdates (processVolume micSession (Fin 100)) = [True]
   \<and> sameSide (processVolume micSession (Fin 100)) [Fin 30, Fin 30]
   \<and> mouthUpdates (feed (processVolume micSession (Fin 100)) [Fin 30, Fin 30]) = [True]"
proof -
  have a: "smoothedVolume (processVolume (micSession\<lparr>threshold := Fin 30\<rparr>) (Fin 100))
        = threshold (micSession\<lparr>threshold := Fin 30\<rparr>)"
    by (simp add: smoothedVolume_processVolume micSession_fields ema_0_100)
  have b: "mouthUpdates (processVolume micSession (Fin 100)) = [True]"
    by (simp add: mouthUpdates_processVolume micSession_fields ema_0_100 js_gt_def)
  have c: "sameSide (processVolume micSession (Fin 100)) [Fin 30, Fin 30]"
    by (simp add: smoothedVolume_processVolume threshold_processVolume isTalking_processVolume
        micSession_fields ema_0_100 ema_30_30 js_gt_def)
  have d: "\<not> isTalking (processVolume (micSession\<lparr>threshold := Fin 30\<rparr>) (Fin 100))"
    using a transition_edge_triggered [of "micSession\<lparr>threshold := Fin 30\<rparr>" "Fin 100" "[]"]
    by blast
  have "mouthUpdates (feed (processVolume micSession (Fin 100)) [Fin 30, Fin 30])
        = mouthUpdates (processVolume micSession (Fin 100))"
    using c transition_edge_triggered [of "processVolume micSession (Fin 100)" "Fin 30"
        "[Fin 30, Fin 30]"]
    by blast
  then have e: "mouthUpdates (feed (processVolume micSession (Fin 100)) [Fin 30, Fin 30]) = [True]"
    by (simp only: b)
  show ?thesis using a b c d e by blast
qed

text \<open>
  C7, as amended: from the constructor's state, and from any state whose smoothed volume
  is in \<open>[0, 100]\<close>, samples in \<open>[0, 100]\<close> keep the smoothed volume in
  \<open>[0, 100]\<close>; and each update is within \<open>2 ^ - 45\<close> of the interval from the smaller
  to the larger of the old smoothed volume and the sample.
\<close>

theorem smoothing_stays_in_range:
  "((\<forall>v \<in> set vs. inRange v) \<longrightarrow> inRange (smoothedVolume (feed (constructor h params) vs)))
   \<and> (inRange (smoothedVolume st) \<and> (\<forall>v \<in> set vs. inRange v) \<longrightarrow>
        inRange (smoothedVolume (feed st vs)))
   \<and> (smoothedVolume st = Fin s \<and> 0 \<le> s \<and> s \<le> 100 \<and> 0 \<le> x \<and> x \<le> 100 \<longrightarrow>
        (\<exists>r. smoothedVolume (processVolume st (Fin x)) = Fin r
            \<and> min s x - 1 / 2 ^ 45 \<le> r \<and> r \<le> max s x + 1 / 2 ^ 45))"
proof -
  have "inRange (smoothedVolume (constructor h params))"
    by (simp add: smoothedVolume_constructor inRange_def)
  then show ?thesis
    using ema_near_interval [of s x]
    by (auto simp: feed_inRange smoothedVolume_processVolume)
qed

text \<open>An instance: the samples 10 and 3 after the constructor.\<close>

theorem smoothing_stays_in_range_witness:
  "inRange (Fin 10) \<and> inRange (Fin 3)
   \<and> inRange (smoothedVolume (feed (constructor page []) [Fin 10, Fin 3]))
   \<and> inRange (smoothedVolume micSession)
   \<and> inRange (smoothedVolume (feed micSession [Fin 10, Fin 3]))
   \<and> smoothedVolume micSession = Fin 0
   \<and> (\<exists>r. smoothedVolume (processVolume micSession (Fin 10)) = Fin r
          \<and> min 0 10 - 1 / 2 ^ 45 \<le> r \<and> r \<le> max 0 10 + 1 / 2 ^ 45)"
  using smoothing_stays_in_range [of "[Fin 10, Fin 3]" page "[]" micSession 0 10]
  by (simp add: micSession_fields inRange_def)

text \<open>
  The sample 10 brings the smoothed volume from 0 to 3; the sample 3 then brings it to
  \<open>3 - 2 ^ - 51\<close> (printed 2.9999999999999996), below both the old smoothed volume and
  the sample.
\<close>

theorem smoothing_undershoots_its_inputs:
  "inRange (Fin 10) \<and> inRange (Fin 3) \<and> smoothedVolume micSession = Fin 0
   \<and> smoothedVolume (feed micSession [Fin 10]) = Fin 3
   \<and> js_lt (smoothedVolume (feed micSession [Fin 10, Fin 3]))
            (Math_min (smoothedVolume (feed micSession [Fin 10])) (Fin 3))"
  by (simp add: smoothedVolume_processVolume micSession_fields ema_0_10 ema_3_3 inRange_def
      Math_min_def)

text \<open>
  C8: without a \<open>threshold\<close> parameter the threshold is 30. The constructor of both
  files sets 20, and nothing else writes the field before the first sample.
\<close>

theorem default_threshold_is_20:
  "threshold (constructor page []) = Fin 20
   \<and> threshold (constructor page [(''obs'', ''true'')]) = Fin 20
   \<and> threshold (constructor_micOnly page []) = Fin 20
   \<and> Fin 20 \<noteq> Fin 30"
  by (simp add: session_defs)

text \<open>
  C9: \<open>obsSend\<close> transmits when the socket exists and is open, and otherwise returns
  with the state unchanged; it never throws.
\<close>

theorem obsSend_guarded:
  "(obsWebSocket st = Some ws \<and> readyState ws = OPEN \<longrightarrow>
      obsSend st data = Inr (st\<lparr>obsWebSocket := Some (ws\<lparr>sent := sent ws @ [data]\<rparr>)\<rparr>))
   \<and> (obsWebSocket st = None \<or> (obsWebSocket st = Some ws \<and> readyState ws \<noteq> OPEN) \<longrightarrow>
      obsSend st data = Inr st)
   \<and> obsSend st data \<noteq> Inl e"
  using obsSend_open [of st ws data] obsSend_not_open [of st ws data] obsSend_no_throw [of st data e]
  by blast

text \<open>An instance: an open socket, a closed socket, and no socket.\<close>

theorem obsSend_guarded_witness:
  "obsSend (setReadyState OPEN obsSession) \<lparr>out_op = 1, out_d = identify_d 1 None\<rparr>
     = Inr ((setReadyState OPEN obsSession)\<lparr>obsWebSocket :=
         Some \<lparr>url = ''ws://127.0.0.1:4455'', readyState = OPEN,
               sent = [\<lparr>out_op = 1, out_d = identify_d 1 None\<rparr>]\<rparr>\<rparr>)
   \<and> obsSend (setReadyState CLOSED obsSession) \<lparr>out_op = 1, out_d = identify_d 1 None\<rparr>
     = Inr (setReadyState CLOSED obsSession)
   \<and> obsSend micSession \<lparr>out_op = 1, out_d = identify_d 1 None\<rparr> = Inr micSession"
  using obsSend_guarded [of "setReadyState OPEN obsSession"
      "\<lparr>url = ''ws://127.0.0.1:4455'', readyState = OPEN, sent = []\<rparr>"
      "\<lparr>out_op = 1, out_d = identify_d 1 None\<rparr>"]
    obsSend_guarded [of "setReadyState CLOSED obsSession"
      "\<lparr>url = ''ws://127.0.0.1:4455'', readyState = CLOSED, sent = []\<rparr>"
      "\<lparr>out_op = 1, out_d = identify_d 1 None\<rparr>"]
    obsSend_guarded [of micSession
      "\<lparr>url = ''ws://127.0.0.1:4455'', readyState = CLOSED, sent = []\<rparr>"
      "\<lparr>out_op = 1, out_d = identify_d 1 None\<rparr>"]
  by (simp add: setReadyState_def obsSession_socket micSession_def session_defs)

text \<open>
  C10: the update is monotone in the sample and in the previous smoothed volume: a larger
  argument never gives a smaller result, and on \<open>[0, 100]\<close> the results are ordered.
\<close>

theorem smoothing_monotone:
  "(js_le v1 v2 \<longrightarrow>
      \<not> js_lt (smoothedVolume (processVolume st v2)) (smoothedVolume (processVolume st v1)))
   \<and> (js_le (smoothedVolume st1) (smoothedVolume st2) \<longrightarrow>
      \<not> js_lt (smoothedVolume (processVolume st2 v)) (smoothedVolume (processVolume st1 v)))
   \<and> (inRange (smoothedVolume st1) \<and> inRange (smoothedVolume st2) \<and> inRange v1 \<and> inRange v2
       \<and> js_le (smoothedVolume st1) (smoothedVolume st2) \<and> js_le v1 v2 \<longrightarrow>
      js_le (smoothedVolume (processVolume st1 v1)) (smoothedVolume (processVolume st2 v2)))"
proof (intro conjI impI)
  assume "js_le v1 v2"
  then show "\<not> js_lt (smoothedVolume (processVolume st v2))
                     (smoothedVolume (processVolume st v1))"
    unfolding smoothedVolume_processVolume by (rule ema_mono_sample)
next
  assume "js_le (smoothedVolume st1) (smoothedVolume st2)"
  then show "\<not> js_lt (smoothedVolume (processVolume st2 v))
                     (smoothedVolume (processVolume st1 v))"
    unfolding smoothedVolume_processVolume by (rule ema_mono_state)
next
  assume "inRange (smoothedVolume st1) \<and> inRange (smoothedVolume st2) \<and> inRange v1
          \<and> inRange v2 \<and> js_le (smoothedVolume st1) (smoothedVolume st2) \<and> js_le v1 v2"
  then show "js_le (smoothedVolume (processVolume st1 v1))
                   (smoothedVolume (processVolume st2 v2))"
    unfolding smoothedVolume_processVolume by (intro ema_le_inRange) simp_all
qed

text \<open>An instance: samples 0 and 100, previous smoothed volumes 0 and 100.\<close>

theorem smoothing_monotone_witness:
  "js_le (Fin 0) (Fin 100)
   \<and> \<not> js_lt (smoothedVolume (processVolume micSession (Fin 100)))
              (smoothedVolume (processVolume micSession (Fin 0)))
   \<and> js_le (smoothedVolume micSession) (smoothedVolume (micSession\<lparr>smoothedVolume := Fin 100\<rparr>))
   \<and> \<not> js_lt (smoothedVolume (processVolume (micSession\<lparr>smoothedVolume := Fin 100\<rparr>) (Fin 0)))
              (smoothedVolume (processVolume micSession (Fin 0)))
   \<and> js_le (smoothedVolume (processVolume micSession (Fin 0)))
            (smoothedVolume (processVolume (micSession\<lparr>smoothedVolume := Fin 100\<rparr>) (Fin 100)))"
  using smoothing_monotone [of "Fin 0" "Fin 100" micSession micSession
      "micSession\<lparr>smoothedVolume := Fin 100\<rparr>" "Fin 0"]
  by (simp add: micSession_fields inRange_def)

end
